theory Spec2Isabelle
  imports Complex_Main "HOL-Library.AList"
begin

section \<open>Python values\<close>

text \<open>
  The values that flow through the program: decoded JSON (None, booleans, integers,
  floats, strings, lists, dicts with string keys), the datetime objects produced by
  \<^verbatim>\<open>parse_datetime\<close>, and the opaque bookkeeping object that the ORM keeps in
  every mapped instance. A datetime is a point in time (an integer number of ticks);
  a float carries a rational, rounding is not modelled.
\<close>

datatype pyval =
    PNone
  | PBool bool
  | PInt int
  | PFloat rat
  | PStr string
  | PList "pyval list"
  | PDict "(string \<times> pyval) list"
  | PDatetime int
  | POpaque

datatype error =
  TypeError | ValueError | AttributeError | OverflowError | IntegrityError | JSONDecodeError

text \<open>
  The store: a row is the map from column names to values; a table lists its rows by
  primary key, in insertion order.
\<close>

type_synonym row = "string \<rightharpoonup> pyval"

type_synonym table = "(string \<times> row) list"

record db =
  events_tbl :: table
  markets_tbl :: table

text \<open>
  What the source calls and the repository does not hold: \<^verbatim>\<open>datetime.fromisoformat\<close>
  (raises ValueError on a string it cannot parse), the parsing of a string by
  \<^verbatim>\<open>float\<close>, \<^verbatim>\<open>str\<close> on floats and containers, and the database engine.
  \<^verbatim>\<open>flush_error\<close> is the verdict of the engine on a row that the session sends to it
  at a flush: given the pending store, the name of the table and the key of the row, it is
  the exception raised (a violated constraint such as the unique index on
  \<^verbatim>\<open>Event.slug\<close>, a value that does not fit its column, an integer out of range, a
  lost connection), or \<open>None\<close> when the row is accepted. Nothing is assumed about it.
\<close>

record pylib =
  fromisoformat :: "string \<Rightarrow> int option"
  float_of_str :: "string \<Rightarrow> rat option"
  str_other :: "pyval \<Rightarrow> string"
  flush_error :: "db \<Rightarrow> string \<Rightarrow> string \<Rightarrow> error option"

text \<open>Truthiness, as tested by \<^verbatim>\<open>if x\<close> and \<^verbatim>\<open>not x\<close>.\<close>

fun truthy :: "pyval \<Rightarrow> bool" where
  "truthy PNone = False"
| "truthy (PBool b) = b"
| "truthy (PInt n) = (n \<noteq> 0)"
| "truthy (PFloat r) = (r \<noteq> 0)"
| "truthy (PStr s) = (s \<noteq> [])"
| "truthy (PList xs) = (xs \<noteq> [])"
| "truthy (PDict d) = (d \<noteq> [])"
| "truthy (PDatetime t) = True"
| "truthy POpaque = True"

text \<open>\<^verbatim>\<open>d.get(k, default)\<close> on a dict; \<^verbatim>\<open>d.get(k)\<close> is \<^verbatim>\<open>d.get(k, None)\<close>.\<close>

definition dict_get :: "(string \<times> pyval) list \<Rightarrow> string \<Rightarrow> pyval \<Rightarrow> pyval" where
  "dict_get d k dflt = (case map_of d k of None \<Rightarrow> dflt | Some v \<Rightarrow> v)"

text \<open>\<^verbatim>\<open>s.replace('Z', '+00:00')\<close>: every occurrence is replaced.\<close>

definition replace_Z :: "string \<Rightarrow> string" where
  "replace_Z s = concat (map (\<lambda>c. if c = CHR ''Z'' then ''+00:00'' else [c]) s)"

section \<open>fetch\_and\_populate.py: parse\_datetime\<close>

text \<open>
  The body of the \<^verbatim>\<open>try\<close>: \<^verbatim>\<open>date_string.replace\<close> exists on strings only (an
  AttributeError, or a TypeError for a datetime, on anything else), and
  \<^verbatim>\<open>fromisoformat\<close> raises ValueError on a string it cannot parse.
\<close>

fun parse_datetime_try :: "pylib \<Rightarrow> pyval \<Rightarrow> error + pyval" where
  "parse_datetime_try L (PStr s) =
     (case fromisoformat L (replace_Z s) of
        None \<Rightarrow> Inl ValueError
      | Some t \<Rightarrow> Inr (PDatetime t))"
| "parse_datetime_try L (PDatetime t) = Inl TypeError"
| "parse_datetime_try L v = Inl AttributeError"

text \<open>
  \<^verbatim>\<open>if not date_string: return None\<close>, then the \<^verbatim>\<open>try\<close> with its bare
  \<^verbatim>\<open>except: return None\<close>. The result is an outcome: \<open>Inl\<close> would be an exception
  leaving the function.
\<close>

definition parse_datetime :: "pylib \<Rightarrow> pyval \<Rightarrow> error + pyval" where
  "parse_datetime L date_string =
     (if \<not> truthy date_string then Inr PNone
      else (case parse_datetime_try L date_string of
              Inl e \<Rightarrow> Inr PNone
            | Inr d \<Rightarrow> Inr d))"

section \<open>Builtins: exceptions in sequence, str, float, iteration\<close>

text \<open>Sequencing: an exception in the first computation skips the rest.\<close>

definition bind_r :: "error + 'a \<Rightarrow> ('a \<Rightarrow> error + 'b) \<Rightarrow> error + 'b" where
  "bind_r m f = (case m of Inl e \<Rightarrow> Inl e | Inr x \<Rightarrow> f x)"

function str_nat :: "nat \<Rightarrow> string" where
  "str_nat n = (if n < 10 then [''0123456789'' ! n]
                else str_nat (n div 10) @ [''0123456789'' ! (n mod 10)])"
  by pat_completeness auto
termination
  by (relation "measure id") auto

definition str_int :: "int \<Rightarrow> string" where
  "str_int i = (if i < 0 then CHR ''-'' # str_nat (nat (- i)) else str_nat (nat i))"

text \<open>\<^verbatim>\<open>str(x)\<close>; it never raises.\<close>

fun py_str :: "pylib \<Rightarrow> pyval \<Rightarrow> string" where
  "py_str L PNone = ''None''"
| "py_str L (PBool b) = (if b then ''True'' else ''False'')"
| "py_str L (PInt i) = str_int i"
| "py_str L (PStr s) = s"
| "py_str L v = str_other L v"

text \<open>
  \<^verbatim>\<open>float(x)\<close>: TypeError on None, on containers and on objects without
  \<^verbatim>\<open>__float__\<close>; ValueError on a string that is not a number; OverflowError on an
  integer that rounds beyond the largest double.
\<close>

definition double_overflow :: "int \<Rightarrow> bool" where
  "double_overflow i = (2 ^ 1024 - 2 ^ 970 \<le> \<bar>i\<bar>)"

fun py_float :: "pylib \<Rightarrow> pyval \<Rightarrow> error + pyval" where
  "py_float L (PBool b) = Inr (PFloat (if b then 1 else 0))"
| "py_float L (PInt i) =
     (if double_overflow i then Inl OverflowError else Inr (PFloat (of_int i)))"
| "py_float L (PFloat r) = Inr (PFloat r)"
| "py_float L (PStr s) =
     (case float_of_str L s of None \<Rightarrow> Inl ValueError | Some r \<Rightarrow> Inr (PFloat r))"
| "py_float L v = Inl TypeError"

text \<open>
  \<^verbatim>\<open>for x in v\<close>: the elements of a list, the keys of a dict, the characters of a
  string; TypeError on a value that is not iterable.
\<close>

fun py_iter :: "pyval \<Rightarrow> error + pyval list" where
  "py_iter (PList xs) = Inr xs"
| "py_iter (PDict d) = Inr (map (\<lambda>kv. PStr (fst kv)) d)"
| "py_iter (PStr s) = Inr (map (\<lambda>c. PStr [c]) s)"
| "py_iter v = Inl TypeError"

text \<open>\<^verbatim>\<open>x.get\<close> exists on dicts only.\<close>

fun as_dict :: "pyval \<Rightarrow> error + (string \<times> pyval) list" where
  "as_dict (PDict d) = Inr d"
| "as_dict v = Inl AttributeError"

section \<open>fetch\_and\_populate.py: field mapping\<close>

text \<open>
  A mapped object is its \<^verbatim>\<open>__dict__\<close>: the ORM's \<^verbatim>\<open>_sa_instance_state\<close> entry
  followed by the attributes the constructor was given, in the order of the source.
\<close>

type_synonym obj = "(string \<times> pyval) list"

definition create_event_from_api :: "pylib \<Rightarrow> pyval \<Rightarrow> error + obj" where
  "create_event_from_api L event_data =
     bind_r (as_dict event_data) (\<lambda>d.
     bind_r (parse_datetime L (dict_get d ''createdAt'' PNone)) (\<lambda>created_at.
     bind_r (parse_datetime L (dict_get d ''updatedAt'' PNone)) (\<lambda>updated_at.
     bind_r (parse_datetime L (dict_get d ''startTime'' PNone)) (\<lambda>start_time.
     bind_r (parse_datetime L (dict_get d ''endDate'' PNone)) (\<lambda>end_date.
     Inr [(''_sa_instance_state'', POpaque),
          (''id'', PStr (py_str L (dict_get d ''id'' PNone))),
          (''slug'', dict_get d ''slug'' PNone),
          (''ticker'', dict_get d ''ticker'' PNone),
          (''title'', dict_get d ''title'' PNone),
          (''description'', dict_get d ''description'' PNone),
          (''active'', dict_get d ''active'' (PBool False)),
          (''closed'', dict_get d ''closed'' (PBool False)),
          (''archived'', dict_get d ''archived'' (PBool False)),
          (''restricted'', dict_get d ''restricted'' (PBool False)),
          (''featured'', dict_get d ''featured'' (PBool False)),
          (''created_at'', created_at),
          (''updated_at'', updated_at),
          (''start_time'', start_time),
          (''end_date'', end_date),
          (''icon'', dict_get d ''icon'' PNone),
          (''image'', dict_get d ''image'' PNone),
          (''resolution_source'', dict_get d ''resolutionSource'' PNone),
          (''liquidity'', dict_get d ''liquidity'' (PInt 0)),
          (''liquidity_amm'', dict_get d ''liquidityAmm'' (PInt 0)),
          (''liquidity_clob'', dict_get d ''liquidityClob'' (PInt 0)),
          (''open_interest'', dict_get d ''openInterest'' (PInt 0)),
          (''volume'', dict_get d ''volume'' (PInt 0)),
          (''volume_24hr'', dict_get d ''volume24hr'' (PInt 0)),
          (''volume_1wk'', dict_get d ''volume1wk'' (PInt 0)),
          (''volume_1mo'', dict_get d ''volume1mo'' (PInt 0)),
          (''volume_1yr'', dict_get d ''volume1yr'' (PInt 0)),
          (''cyom'', dict_get d ''cyom'' (PBool False)),
          (''competitive'', dict_get d ''competitive'' (PInt 0)),
          (''comment_count'', dict_get d ''commentCount'' (PInt 0)),
          (''enable_order_book'', dict_get d ''enableOrderBook'' (PBool False)),
          (''neg_risk'', dict_get d ''negRisk'' (PBool False)),
          (''tags'', dict_get d ''tags'' (PList []))])))))"

definition create_market_from_api :: "pylib \<Rightarrow> pyval \<Rightarrow> string \<Rightarrow> error + obj" where
  "create_market_from_api L market_data event_id =
     bind_r (as_dict market_data) (\<lambda>d.
     bind_r (parse_datetime L (dict_get d ''createdAt'' PNone)) (\<lambda>created_at.
     bind_r (parse_datetime L (dict_get d ''updatedAt'' PNone)) (\<lambda>updated_at.
     bind_r (parse_datetime L (dict_get d ''startDate'' PNone)) (\<lambda>start_date.
     bind_r (parse_datetime L (dict_get d ''endDate'' PNone)) (\<lambda>end_date.
     bind_r (parse_datetime L (dict_get d ''eventStartTime'' PNone)) (\<lambda>event_start_time.
     bind_r (parse_datetime L (dict_get d ''acceptingOrdersTimestamp'' PNone))
       (\<lambda>accepting_orders_timestamp.
     bind_r (py_float L (dict_get d ''bestBid'' (PInt 0))) (\<lambda>best_bid.
     bind_r (py_float L (dict_get d ''bestAsk'' (PInt 0))) (\<lambda>best_ask.
     bind_r (py_float L (dict_get d ''spread'' (PInt 0))) (\<lambda>spread.
     bind_r (py_float L (dict_get d ''lastTradePrice'' (PInt 0))) (\<lambda>last_trade_price.
     bind_r (py_float L (dict_get d ''oneHourPriceChange'' (PInt 0))) (\<lambda>one_hour_price_change.
     bind_r (py_float L (dict_get d ''oneDayPriceChange'' (PInt 0))) (\<lambda>one_day_price_change.
     bind_r (py_float L (dict_get d ''oneWeekPriceChange'' (PInt 0))) (\<lambda>one_week_price_change.
     bind_r (py_float L (dict_get d ''oneMonthPriceChange'' (PInt 0)))
       (\<lambda>one_month_price_change.
     bind_r (py_float L (dict_get d ''oneYearPriceChange'' (PInt 0))) (\<lambda>one_year_price_change.
     bind_r (py_float L (dict_get d ''orderPriceMinTickSize'' (PInt 0)))
       (\<lambda>order_price_min_tick_size.
     Inr [(''_sa_instance_state'', POpaque),
          (''id'', PStr (py_str L (dict_get d ''id'' PNone))),
          (''event_id'', PStr event_id),
          (''slug'', dict_get d ''slug'' PNone),
          (''question'', dict_get d ''question'' PNone),
          (''description'', dict_get d ''description'' PNone),
          (''question_id'', dict_get d ''questionID'' PNone),
          (''condition_id'', dict_get d ''conditionId'' PNone),
          (''active'', dict_get d ''active'' (PBool False)),
          (''closed'', dict_get d ''closed'' (PBool False)),
          (''archived'', dict_get d ''archived'' (PBool False)),
          (''restricted'', dict_get d ''restricted'' (PBool False)),
          (''featured'', dict_get d ''featured'' (PBool False)),
          (''accepting_orders'', dict_get d ''acceptingOrders'' (PBool False)),
          (''created_at'', created_at),
          (''updated_at'', updated_at),
          (''start_date'', start_date),
          (''end_date'', end_date),
          (''end_date_iso'', dict_get d ''endDateIso'' PNone),
          (''event_start_time'', event_start_time),
          (''accepting_orders_timestamp'', accepting_orders_timestamp),
          (''icon'', dict_get d ''icon'' PNone),
          (''image'', dict_get d ''image'' PNone),
          (''best_bid'', best_bid),
          (''best_ask'', best_ask),
          (''spread'', spread),
          (''last_trade_price'', last_trade_price),
          (''liquidity'', PStr (py_str L (dict_get d ''liquidity'' (PInt 0)))),
          (''liquidity_num'', dict_get d ''liquidityNum'' (PInt 0)),
          (''liquidity_amm'', dict_get d ''liquidityAmm'' (PInt 0)),
          (''liquidity_clob'', dict_get d ''liquidityClob'' (PInt 0)),
          (''volume'', PStr (py_str L (dict_get d ''volume'' (PInt 0)))),
          (''volume_num'', dict_get d ''volumeNum'' (PInt 0)),
          (''volume_24hr'', dict_get d ''volume24hr'' (PInt 0)),
          (''volume_1wk'', dict_get d ''volume1wk'' (PInt 0)),
          (''volume_1mo'', dict_get d ''volume1mo'' (PInt 0)),
          (''volume_1yr'', dict_get d ''volume1yr'' (PInt 0)),
          (''one_hour_price_change'', one_hour_price_change),
          (''one_day_price_change'', one_day_price_change),
          (''one_week_price_change'', one_week_price_change),
          (''one_month_price_change'', one_month_price_change),
          (''one_year_price_change'', one_year_price_change),
          (''order_min_size'', dict_get d ''orderMinSize'' (PInt 0)),
          (''order_price_min_tick_size'', order_price_min_tick_size),
          (''resolution_source'', dict_get d ''resolutionSource'' PNone),
          (''resolved_by'', dict_get d ''resolvedBy'' PNone),
          (''uma_bond'', PStr (py_str L (dict_get d ''umaBond'' (PStr [])))),
          (''uma_reward'', PStr (py_str L (dict_get d ''umaReward'' (PStr [])))),
          (''clob_token_ids'', dict_get d ''clobTokenIds'' (PList [])),
          (''outcomes'', dict_get d ''outcomes'' (PList [])),
          (''neg_risk'', dict_get d ''negRisk'' (PBool False)),
          (''enable_order_book'', dict_get d ''enableOrderBook'' (PBool False)),
          (''competitive'', dict_get d ''competitive'' (PInt 0)),
          (''cyom'', dict_get d ''cyom'' (PBool False)),
          (''submitted_by'', dict_get d ''submitted_by'' PNone),
          (''market_maker_address'', dict_get d ''marketMakerAddress'' PNone)])))))))))))))))))"

section \<open>fetch\_and\_populate.py: the API client\<close>

text \<open>
  What \<^verbatim>\<open>requests.get\<close> hands back: the status code and the outcome of
  \<^verbatim>\<open>response.json()\<close>, which raises on a body that is not JSON and otherwise gives the
  decoded JSON array of the events endpoint.
\<close>

record response =
  status_code :: int
  json_body :: "error + pyval list"

text \<open>
  The remote server is a function from the query parameters \<^verbatim>\<open>limit\<close> and
  \<^verbatim>\<open>offset\<close> (the other parameters are constants) to its response. The result pairs
  the lines printed with the outcome.
\<close>

definition fetch_active_events ::
  "(nat \<Rightarrow> nat \<Rightarrow> response) \<Rightarrow> nat \<Rightarrow> nat \<Rightarrow> string list \<times> (error + pyval list)" where
  "fetch_active_events http limit offset =
     (let response = http limit offset in
      if status_code response = 200 then ([], json_body response)
      else ([''Error fetching events: '' @ str_int (status_code response)], Inr []))"

text \<open>\<^verbatim>\<open>xs[:m]\<close>; a negative bound counts from the end.\<close>

definition slice_to :: "'a list \<Rightarrow> int \<Rightarrow> 'a list" where
  "slice_to xs m = (if 0 \<le> m then take (nat m) xs else take (nat (int (length xs) + m)) xs)"

text \<open>
  The \<^verbatim>\<open>while True\<close> loop of \<^verbatim>\<open>fetch_all_active_events\<close>, with
  \<^verbatim>\<open>limit = 100\<close>. The first argument bounds the number of iterations: \<open>None\<close> means
  that the loop has not ended within the bound. \<^verbatim>\<open>max_events\<close> is None or an integer.
\<close>

fun fetch_loop ::
  "nat \<Rightarrow> (nat \<Rightarrow> nat \<Rightarrow> response) \<Rightarrow> int option \<Rightarrow> pyval list \<Rightarrow> nat
     \<Rightarrow> (error + pyval list) option" where
  "fetch_loop 0 http max_events all_events offset = None"
| "fetch_loop (Suc fuel) http max_events all_events offset =
     (case snd (fetch_active_events http 100 offset) of
        Inl e \<Rightarrow> Some (Inl e)
      | Inr events \<Rightarrow>
          if events = [] then Some (Inr all_events)
          else
            let all_events' = all_events @ events in
            if length events < 100 then Some (Inr all_events')
            else if (case max_events of None \<Rightarrow> False
                     | Some m \<Rightarrow> m \<noteq> 0 \<and> m \<le> int (length all_events'))
            then Some (Inr (slice_to all_events' (the max_events)))
            else fetch_loop fuel http max_events all_events' (offset + 100))"

definition fetch_all_active_events ::
  "nat \<Rightarrow> (nat \<Rightarrow> nat \<Rightarrow> response) \<Rightarrow> int option \<Rightarrow> (error + pyval list) option" where
  "fetch_all_active_events fuel http max_events = fetch_loop fuel http max_events [] 0"

section \<open>The ORM session\<close>

text \<open>
  A session works on a pending view of the store that starts as the committed one;
  \<^verbatim>\<open>commit\<close> makes the pending view the committed one, \<^verbatim>\<open>rollback\<close> discards it.
  A row that is added or changed is sent to the database at the next flush (before every
  query, autoflush being on by default, and at commit), and there the engine can reject
  it. Between two flushes this program writes one row, which \<^verbatim>\<open>unflushed\<close> names by
  its table and key.
\<close>

record session =
  committed :: db
  pending :: db
  unflushed :: "(string \<times> string) option"

record counts =
  events_added :: nat
  events_updated :: nat
  markets_added :: nat
  markets_updated :: nat

definition bind_s ::
  "(error + 'a) \<times> session \<Rightarrow> ('a \<Rightarrow> session \<Rightarrow> (error + 'b) \<times> session)
     \<Rightarrow> (error + 'b) \<times> session" where
  "bind_s m f = (case m of (Inl e, s) \<Rightarrow> (Inl e, s) | (Inr x, s) \<Rightarrow> f x s)"

definition Session :: "db \<Rightarrow> session" where
  "Session d = \<lparr>committed = d, pending = d, unflushed = None\<rparr>"

definition flush :: "pylib \<Rightarrow> session \<Rightarrow> (error + unit) \<times> session" where
  "flush L s =
     (case unflushed s of
        None \<Rightarrow> (Inr (), s)
      | Some w \<Rightarrow>
          (case flush_error L (pending s) (fst w) (snd w) of
             Some e \<Rightarrow> (Inl e, s)
           | None \<Rightarrow> (Inr (), s\<lparr>unflushed := None\<rparr>)))"

definition commit :: "pylib \<Rightarrow> session \<Rightarrow> (error + unit) \<times> session" where
  "commit L s = bind_s (flush L s) (\<lambda>u s. (Inr (), s\<lparr>committed := pending s\<rparr>))"

definition rollback :: "session \<Rightarrow> session" where
  "rollback s = s\<lparr>pending := committed s, unflushed := None\<rparr>"

text \<open>\<^verbatim>\<open>session.query(T).filter_by(id=i).first()\<close>: flush, then look the key up.\<close>

definition query_event ::
  "pylib \<Rightarrow> string \<Rightarrow> session \<Rightarrow> (error + row option) \<times> session" where
  "query_event L i s =
     bind_s (flush L s) (\<lambda>u s. (Inr (map_of (events_tbl (pending s)) i), s))"

definition query_market ::
  "pylib \<Rightarrow> string \<Rightarrow> session \<Rightarrow> (error + row option) \<times> session" where
  "query_market L i s =
     bind_s (flush L s) (\<lambda>u s. (Inr (map_of (markets_tbl (pending s)) i), s))"

definition write_event :: "string \<Rightarrow> row \<Rightarrow> session \<Rightarrow> session" where
  "write_event i r s =
     s\<lparr>pending := (pending s)\<lparr>events_tbl := AList.update i r (events_tbl (pending s))\<rparr>,
       unflushed := Some (''events'', i)\<rparr>"

definition write_market :: "string \<Rightarrow> row \<Rightarrow> session \<Rightarrow> session" where
  "write_market i r s =
     s\<lparr>pending := (pending s)\<lparr>markets_tbl := AList.update i r (markets_tbl (pending s))\<rparr>,
       unflushed := Some (''markets'', i)\<rparr>"

text \<open>
  \<^verbatim>\<open>for key, value in obj.__dict__.items(): if not key.startswith('_'):
  setattr(existing, key, value)\<close>
\<close>

definition private_key :: "string \<Rightarrow> bool" where
  "private_key k = (case k of [] \<Rightarrow> False | c # cs \<Rightarrow> c = CHR ''_'')"

fun setattrs :: "row \<Rightarrow> obj \<Rightarrow> row" where
  "setattrs existing [] = existing"
| "setattrs existing (kv # kvs) =
     setattrs (if \<not> private_key (fst kv) then existing(fst kv \<mapsto> snd kv) else existing) kvs"

text \<open>
  The row that \<^verbatim>\<open>session.add(obj)\<close> inserts: the public attributes of the object, as
  set on a fresh row.
\<close>

definition row_of :: "obj \<Rightarrow> row" where
  "row_of ob = setattrs Map.empty ob"

section \<open>fetch\_and\_populate.py: populate\_database\<close>

definition lift_s :: "error + 'a \<Rightarrow> session \<Rightarrow> (error + 'a) \<times> session" where
  "lift_s m s = (m, s)"

text \<open>The body of the inner loop, for one entry of \<^verbatim>\<open>markets_data\<close>.\<close>

definition process_market ::
  "pylib \<Rightarrow> string \<Rightarrow> pyval \<Rightarrow> counts \<Rightarrow> session \<Rightarrow> (error + counts) \<times> session" where
  "process_market L event_id market_data c s =
     bind_s (lift_s (as_dict market_data) s) (\<lambda>d s.
     let market_id = py_str L (dict_get d ''id'' PNone) in
     bind_s (query_market L market_id s) (\<lambda>existing_market s.
     case existing_market of
       Some existing \<Rightarrow>
         bind_s (lift_s (create_market_from_api L market_data event_id) s) (\<lambda>m s.
           (Inr (c\<lparr>markets_updated := markets_updated c + 1\<rparr>),
            write_market market_id (setattrs existing m) s))
     | None \<Rightarrow>
         bind_s (lift_s (create_market_from_api L market_data event_id) s) (\<lambda>new_market s.
           (Inr (c\<lparr>markets_added := markets_added c + 1\<rparr>),
            write_market market_id (row_of new_market) s))))"

fun process_markets ::
  "pylib \<Rightarrow> string \<Rightarrow> pyval list \<Rightarrow> counts \<Rightarrow> session \<Rightarrow> (error + counts) \<times> session" where
  "process_markets L event_id [] c s = (Inr c, s)"
| "process_markets L event_id (market_data # rest) c s =
     bind_s (process_market L event_id market_data c s) (process_markets L event_id rest)"

text \<open>The body of the outer loop, for one entry of \<^verbatim>\<open>events_data\<close>.\<close>

definition process_event ::
  "pylib \<Rightarrow> pyval \<Rightarrow> counts \<Rightarrow> session \<Rightarrow> (error + counts) \<times> session" where
  "process_event L event_data c s =
     bind_s (lift_s (as_dict event_data) s) (\<lambda>d s.
     let event_id = py_str L (dict_get d ''id'' PNone) in
     bind_s (query_event L event_id s) (\<lambda>existing_event s.
     bind_s
       (case existing_event of
          Some existing \<Rightarrow>
            bind_s (lift_s (create_event_from_api L event_data) s) (\<lambda>e s.
              (Inr (c\<lparr>events_updated := events_updated c + 1\<rparr>),
               write_event event_id (setattrs existing e) s))
        | None \<Rightarrow>
            bind_s (lift_s (create_event_from_api L event_data) s) (\<lambda>new_event s.
              (Inr (c\<lparr>events_added := events_added c + 1\<rparr>),
               write_event event_id (row_of new_event) s)))
       (\<lambda>c s.
     bind_s (lift_s (py_iter (dict_get d ''markets'' (PList []))) s) (\<lambda>markets_data s.
     process_markets L event_id markets_data c s))))"

fun process_events ::
  "pylib \<Rightarrow> pyval list \<Rightarrow> counts \<Rightarrow> session \<Rightarrow> (error + counts) \<times> session" where
  "process_events L [] c s = (Inr c, s)"
| "process_events L (event_data # rest) c s =
     bind_s (process_event L event_data c s) (process_events L rest)"

definition no_counts :: counts where
  "no_counts = \<lparr>events_added = 0, events_updated = 0, markets_added = 0, markets_updated = 0\<rparr>"

text \<open>
  The whole function: the \<^verbatim>\<open>try\<close> block ends with \<^verbatim>\<open>session.commit()\<close> and the
  printing of the four counters, the \<^verbatim>\<open>except\<close> clause rolls back and re-raises. The
  result is the outcome (the counters printed, or the exception that leaves the function)
  and the store as committed when the function is left.
\<close>

definition populate_database :: "pylib \<Rightarrow> db \<Rightarrow> pyval list \<Rightarrow> (error + counts) \<times> db" where
  "populate_database L store events_data =
     (case bind_s (process_events L events_data no_counts (Session store))
             (\<lambda>c s. bind_s (commit L s) (\<lambda>u s. (Inr c, s))) of
        (Inr c, s) \<Rightarrow> (Inr c, committed s)
      | (Inl e, s) \<Rightarrow> (Inl e, committed (rollback s)))"

section \<open>search\_event\_db.py: get\_events\_by\_tag\<close>

text \<open>\<^verbatim>\<open>s.lower()\<close> on the ASCII letters; \<^verbatim>\<open>a in b\<close> on strings.\<close>

definition lower_char :: "char \<Rightarrow> char" where
  "lower_char c =
     (let n = (of_char c :: nat) in if 65 \<le> n \<and> n \<le> 90 then char_of (n + 32) else c)"

definition lower :: "string \<Rightarrow> string" where
  "lower s = map lower_char s"

fun starts_with :: "string \<Rightarrow> string \<Rightarrow> bool" where
  "starts_with [] ys = True"
| "starts_with (x # xs) [] = False"
| "starts_with (x # xs) (y # ys) = (x = y \<and> starts_with xs ys)"

fun contains :: "string \<Rightarrow> string \<Rightarrow> bool" where
  "contains [] needle = (needle = [])"
| "contains (c # cs) needle = (starts_with needle (c # cs) \<or> contains cs needle)"

text \<open>\<^verbatim>\<open>tag.get(k, '').lower()\<close>: only a string has \<^verbatim>\<open>lower\<close>.\<close>

fun get_lower :: "(string \<times> pyval) list \<Rightarrow> string \<Rightarrow> error + string" where
  "get_lower d k =
     (case dict_get d k (PStr []) of PStr s \<Rightarrow> Inr (lower s) | v \<Rightarrow> Inl AttributeError)"

text \<open>
  One round of \<^verbatim>\<open>for tag in event.tags\<close>: whether the tag matches (the event is then
  appended and the loop left).
\<close>

fun tag_matches :: "string \<Rightarrow> pyval \<Rightarrow> error + bool" where
  "tag_matches tag_keyword (PDict d) =
     bind_r (get_lower d ''label'') (\<lambda>tag_label.
     bind_r (get_lower d ''slug'') (\<lambda>tag_slug.
     Inr (contains tag_label (lower tag_keyword) \<or> contains tag_slug (lower tag_keyword))))"
| "tag_matches tag_keyword (PStr s) = Inr (contains (lower s) (lower tag_keyword))"
| "tag_matches tag_keyword v = Inr False"

fun any_tag_matches :: "string \<Rightarrow> pyval list \<Rightarrow> error + bool" where
  "any_tag_matches tag_keyword [] = Inr False"
| "any_tag_matches tag_keyword (tag # tags) =
     bind_r (tag_matches tag_keyword tag) (\<lambda>b.
     if b then Inr True else any_tag_matches tag_keyword tags)"

text \<open>\<^verbatim>\<open>if event.tags: for tag in event.tags: ...\<close>; a NULL column reads as None.\<close>

definition event_matches :: "string \<Rightarrow> row \<Rightarrow> error + bool" where
  "event_matches tag_keyword event =
     (let tags = (case event ''tags'' of None \<Rightarrow> PNone | Some v \<Rightarrow> v) in
      if truthy tags then bind_r (py_iter tags) (any_tag_matches tag_keyword)
      else Inr False)"

text \<open>
  The outer loop over \<^verbatim>\<open>all_future_events\<close>, with the test
  \<^verbatim>\<open>if len(matching_events) >= limit: break\<close> at the end of each round.
\<close>

fun scan_events :: "string \<Rightarrow> int \<Rightarrow> row list \<Rightarrow> row list \<Rightarrow> error + row list" where
  "scan_events tag_keyword limit [] matching_events = Inr matching_events"
| "scan_events tag_keyword limit (event # rest) matching_events =
     bind_r (event_matches tag_keyword event) (\<lambda>b.
     let matching_events' = (if b then matching_events @ [event] else matching_events) in
     if limit \<le> int (length matching_events') then Inr matching_events'
     else scan_events tag_keyword limit rest matching_events')"

text \<open>
  The SQL filter \<^verbatim>\<open>Event.end_date > now, Event.active == True\<close>: a row whose
  \<^verbatim>\<open>end_date\<close> is NULL, or whose \<^verbatim>\<open>active\<close> is not true, is not selected. The rows
  come in table order, the query having no ORDER BY.
\<close>

definition future_active :: "int \<Rightarrow> row \<Rightarrow> bool" where
  "future_active now event =
     ((case event ''end_date'' of Some (PDatetime t) \<Rightarrow> now < t | _ \<Rightarrow> False)
      \<and> event ''active'' = Some (PBool True))"

definition get_events_by_tag :: "db \<Rightarrow> int \<Rightarrow> string \<Rightarrow> int \<Rightarrow> error + row list" where
  "get_events_by_tag store now tag_keyword limit =
     (let all_future_events = filter (future_active now) (map snd (events_tbl store)) in
      scan_events tag_keyword limit all_future_events [])"

section \<open>database\_schema.py: the columns\<close>

definition event_columns :: "string list" where
  "event_columns =
     [''id'', ''slug'', ''ticker'', ''title'', ''description'',
      ''active'', ''closed'', ''archived'', ''restricted'', ''featured'',
      ''created_at'', ''updated_at'', ''start_time'', ''end_date'',
      ''icon'', ''image'', ''resolution_source'',
      ''liquidity'', ''liquidity_amm'', ''liquidity_clob'', ''open_interest'',
      ''volume'', ''volume_24hr'', ''volume_1wk'', ''volume_1mo'', ''volume_1yr'',
      ''cyom'', ''competitive'', ''comment_count'', ''enable_order_book'', ''neg_risk'',
      ''tags'']"

definition market_columns :: "string list" where
  "market_columns =
     [''id'', ''event_id'',
      ''slug'', ''question'', ''description'', ''question_id'', ''condition_id'',
      ''active'', ''closed'', ''archived'', ''restricted'', ''featured'', ''accepting_orders'',
      ''created_at'', ''updated_at'', ''start_date'', ''end_date'', ''end_date_iso'',
      ''event_start_time'', ''accepting_orders_timestamp'',
      ''icon'', ''image'',
      ''best_bid'', ''best_ask'', ''spread'', ''last_trade_price'',
      ''liquidity'', ''liquidity_num'', ''liquidity_amm'', ''liquidity_clob'',
      ''volume'', ''volume_num'', ''volume_24hr'', ''volume_1wk'', ''volume_1mo'',
      ''volume_1yr'',
      ''one_hour_price_change'', ''one_day_price_change'', ''one_week_price_change'',
      ''one_month_price_change'', ''one_year_price_change'',
      ''order_min_size'', ''order_price_min_tick_size'',
      ''resolution_source'', ''resolved_by'', ''uma_bond'', ''uma_reward'',
      ''clob_token_ids'', ''outcomes'',
      ''neg_risk'', ''enable_order_book'', ''competitive'', ''cyom'',
      ''submitted_by'', ''market_maker_address'']"

section \<open>Notions used to state the properties\<close>

text \<open>\<^verbatim>\<open>str(x.get('id'))\<close>, the key under which a raw record is stored.\<close>

definition record_id :: "pylib \<Rightarrow> pyval \<Rightarrow> string" where
  "record_id L x = (case x of PDict d \<Rightarrow> py_str L (dict_get d ''id'' PNone) | _ \<Rightarrow> [])"

text \<open>The nested market records of a raw event, \<^verbatim>\<open>event_data.get('markets', [])\<close>.\<close>

definition markets_of :: "pyval \<Rightarrow> pyval list" where
  "markets_of x =
     (case x of
        PDict d \<Rightarrow> (case py_iter (dict_get d ''markets'' (PList [])) of
                      Inr ms \<Rightarrow> ms | Inl e \<Rightarrow> [])
      | _ \<Rightarrow> [])"

definition total_markets :: "pyval list \<Rightarrow> nat" where
  "total_markets events_data = sum_list (map (\<lambda>x. length (markets_of x)) events_data)"

text \<open>
  The last candidate row written under each key by a batch, and the effect of such writes
  on a table seen as a map: a key that is written keeps the columns the candidate does
  not mention and takes all those it does.
\<close>

fun event_writes :: "pylib \<Rightarrow> pyval list \<Rightarrow> (string \<rightharpoonup> row)" where
  "event_writes L [] = Map.empty"
| "event_writes L (x # xs) =
     (case create_event_from_api L x of
        Inr ob \<Rightarrow> [record_id L x \<mapsto> row_of ob]
      | Inl e \<Rightarrow> Map.empty) ++ event_writes L xs"

fun market_writes_of :: "pylib \<Rightarrow> string \<Rightarrow> pyval list \<Rightarrow> (string \<rightharpoonup> row)" where
  "market_writes_of L event_id [] = Map.empty"
| "market_writes_of L event_id (m # ms) =
     (case create_market_from_api L m event_id of
        Inr ob \<Rightarrow> [record_id L m \<mapsto> row_of ob]
      | Inl e \<Rightarrow> Map.empty) ++ market_writes_of L event_id ms"

fun market_writes :: "pylib \<Rightarrow> pyval list \<Rightarrow> (string \<rightharpoonup> row)" where
  "market_writes L [] = Map.empty"
| "market_writes L (x # xs) =
     market_writes_of L (record_id L x) (markets_of x) ++ market_writes L xs"

definition upsert :: "(string \<rightharpoonup> row) \<Rightarrow> (string \<rightharpoonup> row) \<Rightarrow> (string \<rightharpoonup> row)" where
  "upsert t w =
     (\<lambda>i. case w i of
            None \<Rightarrow> t i
          | Some c \<Rightarrow> Some ((case t i of None \<Rightarrow> Map.empty | Some r \<Rightarrow> r) ++ c))"

text \<open>Two tables hold the same rows under the same keys, in the same order.\<close>

definition same_rows :: "table \<Rightarrow> table \<Rightarrow> bool" where
  "same_rows t1 t2 = (map fst t1 = map fst t2 \<and> map_of t1 = map_of t2)"

text \<open>
  A sample instance of the library functions, for evaluating the program on concrete
  inputs. Its engine enforces the unique index on \<^verbatim>\<open>Event.slug\<close> among slugs that
  are strings (a row of \<^verbatim>\<open>events\<close> is rejected with an IntegrityError when another
  row holds the same string in \<^verbatim>\<open>slug\<close>; NULL slugs do not collide) and accepts
  every other row.
\<close>

definition slug_conflict :: "table \<Rightarrow> string \<Rightarrow> bool" where
  "slug_conflict tbl i =
     (case map_of tbl i of
        None \<Rightarrow> False
      | Some r \<Rightarrow>
          (case r ''slug'' of
             Some (PStr v) \<Rightarrow>
               list_ex (\<lambda>kr. fst kr \<noteq> i \<and> snd kr ''slug'' = Some (PStr v)) tbl
           | _ \<Rightarrow> False))"

definition sample_lib :: pylib where
  "sample_lib =
     \<lparr>fromisoformat = (\<lambda>s. if s = ''2030-01-01T00:00:00+00:00'' then Some 1893456000 else None),
      float_of_str = (\<lambda>s. if s = ''0.5'' then Some (1 / 2) else None),
      str_other = (\<lambda>v. ''?''),
      flush_error = (\<lambda>d t i. if t = ''events'' \<and> slug_conflict (events_tbl d) i
                              then Some IntegrityError else None)\<rparr>"

text \<open>
  A second sample: an engine that, besides the unique index, rejects a row of
  \<^verbatim>\<open>markets\<close> that holds a string in the Boolean column \<^verbatim>\<open>active\<close>.
\<close>

definition typed_lib :: pylib where
  "typed_lib =
     sample_lib\<lparr>flush_error :=
       (\<lambda>d t i.
          if t = ''events'' \<and> slug_conflict (events_tbl d) i then Some IntegrityError
          else if t = ''markets''
                  \<and> (case map_of (markets_tbl d) i of
                        Some r \<Rightarrow> (case r ''active'' of Some (PStr v) \<Rightarrow> True | _ \<Rightarrow> False)
                      | None \<Rightarrow> False)
          then Some TypeError
          else None)\<rparr>"

definition empty_db :: db where
  "empty_db = \<lparr>events_tbl = [], markets_tbl = []\<rparr>"

text \<open>
  The attributes that the two mapping functions read with a default, as (attribute, key
  of the raw record, default): first those stored as read, then, for a market, those
  passed through \<^verbatim>\<open>float\<close>, whose default \<^verbatim>\<open>float(0)\<close> is 0.0.
\<close>

definition event_defaults :: "(string \<times> string \<times> pyval) list" where
  "event_defaults =
     [(''active'', ''active'', PBool False),
      (''closed'', ''closed'', PBool False),
      (''archived'', ''archived'', PBool False),
      (''restricted'', ''restricted'', PBool False),
      (''featured'', ''featured'', PBool False),
      (''liquidity'', ''liquidity'', PInt 0),
      (''liquidity_amm'', ''liquidityAmm'', PInt 0),
      (''liquidity_clob'', ''liquidityClob'', PInt 0),
      (''open_interest'', ''openInterest'', PInt 0),
      (''volume'', ''volume'', PInt 0),
      (''volume_24hr'', ''volume24hr'', PInt 0),
      (''volume_1wk'', ''volume1wk'', PInt 0),
      (''volume_1mo'', ''volume1mo'', PInt 0),
      (''volume_1yr'', ''volume1yr'', PInt 0),
      (''cyom'', ''cyom'', PBool False),
      (''competitive'', ''competitive'', PInt 0),
      (''comment_count'', ''commentCount'', PInt 0),
      (''enable_order_book'', ''enableOrderBook'', PBool False),
      (''neg_risk'', ''negRisk'', PBool False),
      (''tags'', ''tags'', PList [])]"

definition market_defaults :: "(string \<times> string \<times> pyval) list" where
  "market_defaults =
     [(''active'', ''active'', PBool False),
      (''closed'', ''closed'', PBool False),
      (''archived'', ''archived'', PBool False),
      (''restricted'', ''restricted'', PBool False),
      (''featured'', ''featured'', PBool False),
      (''accepting_orders'', ''acceptingOrders'', PBool False),
      (''liquidity_num'', ''liquidityNum'', PInt 0),
      (''liquidity_amm'', ''liquidityAmm'', PInt 0),
      (''liquidity_clob'', ''liquidityClob'', PInt 0),
      (''volume_num'', ''volumeNum'', PInt 0),
      (''volume_24hr'', ''volume24hr'', PInt 0),
      (''volume_1wk'', ''volume1wk'', PInt 0),
      (''volume_1mo'', ''volume1mo'', PInt 0),
      (''volume_1yr'', ''volume1yr'', PInt 0),
      (''order_min_size'', ''orderMinSize'', PInt 0),
      (''clob_token_ids'', ''clobTokenIds'', PList []),
      (''outcomes'', ''outcomes'', PList []),
      (''neg_risk'', ''negRisk'', PBool False),
      (''enable_order_book'', ''enableOrderBook'', PBool False),
      (''competitive'', ''competitive'', PInt 0),
      (''cyom'', ''cyom'', PBool False)]"

definition market_float_fields :: "(string \<times> string) list" where
  "market_float_fields =
     [(''best_bid'', ''bestBid''),
      (''best_ask'', ''bestAsk''),
      (''spread'', ''spread''),
      (''last_trade_price'', ''lastTradePrice''),
      (''one_hour_price_change'', ''oneHourPriceChange''),
      (''one_day_price_change'', ''oneDayPriceChange''),
      (''one_week_price_change'', ''oneWeekPriceChange''),
      (''one_month_price_change'', ''oneMonthPriceChange''),
      (''one_year_price_change'', ''oneYearPriceChange''),
      (''order_price_min_tick_size'', ''orderPriceMinTickSize'')]"

section \<open>Properties of the API client and of the date parser\<close>

text \<open>
  Claim C6. \<^verbatim>\<open>parse_datetime\<close> reads a trailing Z as the offset +00:00: the string
  with Z gives what the string with +00:00 gives, namely what \<^verbatim>\<open>fromisoformat\<close>
  makes of it. An absent date (None, the empty string, any falsy value) and a string that
  \<^verbatim>\<open>fromisoformat\<close> rejects give None, and no input makes the function raise.
\<close>

theorem parse_datetime_no_raise:
  "parse_datetime L (PStr (s @ ''Z'')) = parse_datetime L (PStr (s @ ''+00:00''))
   \<and> parse_datetime L (PStr (s @ ''Z'')) =
       Inr (case fromisoformat L (replace_Z s @ ''+00:00'') of
              None \<Rightarrow> PNone | Some t \<Rightarrow> PDatetime t)
   \<and> (\<not> truthy v \<longrightarrow> parse_datetime L v = Inr PNone)
   \<and> (fromisoformat L (replace_Z u) = None \<longrightarrow> parse_datetime L (PStr u) = Inr PNone)
   \<and> (\<exists>r. parse_datetime L v = Inr r)"
proof -
  have z: "replace_Z (s @ ''Z'') = replace_Z s @ ''+00:00''"
    and p: "replace_Z (s @ ''+00:00'') = replace_Z s @ ''+00:00''"
    by (simp_all add: replace_Z_def)
  have a: "parse_datetime L (PStr (s @ ''Z'')) =
       Inr (case fromisoformat L (replace_Z s @ ''+00:00'') of
              None \<Rightarrow> PNone | Some t \<Rightarrow> PDatetime t)"
    by (simp add: parse_datetime_def z split: option.splits)
  have b: "parse_datetime L (PStr (s @ ''+00:00'')) =
       Inr (case fromisoformat L (replace_Z s @ ''+00:00'') of
              None \<Rightarrow> PNone | Some t \<Rightarrow> PDatetime t)"
    by (simp add: parse_datetime_def p split: option.splits)
  have c: "\<not> truthy v \<longrightarrow> parse_datetime L v = Inr PNone"
    by (simp add: parse_datetime_def)
  have d: "fromisoformat L (replace_Z u) = None \<longrightarrow> parse_datetime L (PStr u) = Inr PNone"
    by (simp add: parse_datetime_def)
  have e: "\<exists>r. parse_datetime L v = Inr r"
    by (simp add: parse_datetime_def split: sum.splits)
  from a b c d e show ?thesis by simp
qed

theorem parse_datetime_no_raise_witness:
  "parse_datetime sample_lib (PStr ''2030-01-01T00:00:00Z'') = Inr (PDatetime 1893456000)
   \<and> \<not> truthy PNone \<and> parse_datetime sample_lib PNone = Inr PNone
   \<and> fromisoformat sample_lib (replace_Z ''next week'') = None
   \<and> parse_datetime sample_lib (PStr ''next week'') = Inr PNone"
proof -
  note t = parse_datetime_no_raise
    [where L = sample_lib and s = "''2030-01-01T00:00:00''" and v = PNone and u = "''next week''"]
  have a: "parse_datetime sample_lib (PStr ''2030-01-01T00:00:00Z'') = Inr (PDatetime 1893456000)"
    using t [THEN conjunct2, THEN conjunct1] by (simp add: sample_lib_def replace_Z_def)
  have h1: "\<not> truthy PNone" by simp
  have b: "parse_datetime sample_lib PNone = Inr PNone"
    using t h1 by blast
  have h2: "fromisoformat sample_lib (replace_Z ''next week'') = None"
    by (simp add: sample_lib_def replace_Z_def)
  have c: "parse_datetime sample_lib (PStr ''next week'') = Inr PNone"
    using t h2 by blast
  from a h1 b h2 c show ?thesis by blast
qed

text \<open>
  Claim C7. \<^verbatim>\<open>fetch_active_events\<close> returns the decoded JSON array of the response
  when the status is 200; for every other status it prints one error line and returns
  the empty list without raising, and the pagination loop of the caller ends on it with
  what it has accumulated.
\<close>

theorem fetch_active_events_status:
  "(status_code (http limit offset) = 200 \<longrightarrow>
      fetch_active_events http limit offset = ([], json_body (http limit offset)))
   \<and> (status_code (http limit offset) \<noteq> 200 \<longrightarrow>
      fetch_active_events http limit offset =
        ([''Error fetching events: '' @ str_int (status_code (http limit offset))], Inr []))
   \<and> (status_code (http 100 offset) \<noteq> 200 \<longrightarrow>
      fetch_loop (Suc fuel) http max_events all_events offset = Some (Inr all_events))"
  by (simp add: fetch_active_events_def Let_def)

theorem fetch_active_events_status_witness:
  "fetch_active_events
     (\<lambda>limit offset. if offset = 0 then \<lparr>status_code = 200, json_body = Inr [PInt 7]\<rparr>
                      else \<lparr>status_code = 404, json_body = Inl JSONDecodeError\<rparr>) 100 0
     = ([], Inr [PInt 7])
   \<and> fetch_active_events
     (\<lambda>limit offset. if offset = 0 then \<lparr>status_code = 200, json_body = Inr [PInt 7]\<rparr>
                      else \<lparr>status_code = 404, json_body = Inl JSONDecodeError\<rparr>) 100 100
     = ([''Error fetching events: 404''], Inr [])
   \<and> fetch_loop (Suc 0)
     (\<lambda>limit offset. if offset = 0 then \<lparr>status_code = 200, json_body = Inr [PInt 7]\<rparr>
                      else \<lparr>status_code = 404, json_body = Inl JSONDecodeError\<rparr>)
     None [PInt 7] 100 = Some (Inr [PInt 7])"
proof -
  let ?http = "\<lambda>(limit::nat) (offset::nat).
     if offset = 0 then \<lparr>status_code = 200, json_body = Inr [PInt 7]\<rparr>
     else \<lparr>status_code = 404, json_body = Inl JSONDecodeError\<rparr>"
  have s: "str_int 404 = ''404''" by code_simp
  have a: "fetch_active_events ?http 100 0 = ([], Inr [PInt 7])"
    using fetch_active_events_status [where http = ?http and limit = 100 and offset = 0]
    by simp
  have b: "fetch_active_events ?http 100 100 = ([''Error fetching events: 404''], Inr [])"
    using fetch_active_events_status [where http = ?http and limit = 100 and offset = 100]
    by (simp add: s)
  have c: "fetch_loop (Suc 0) ?http None [PInt 7] 100 = Some (Inr [PInt 7])"
    using fetch_active_events_status [where http = ?http and limit = 100 and offset = 100
        and fuel = 0 and max_events = None and all_events = "[PInt 7]"]
    by simp
  from a b c show ?thesis by simp
qed

lemma fetch_loop_zero_is_none:
  "fetch_loop fuel http (Some 0) all_events offset = fetch_loop fuel http None all_events offset"
proof (induction fuel arbitrary: all_events offset)
  case 0
  show ?case by simp
next
  case (Suc fuel)
  show ?case by (simp add: Suc.IH Let_def split: sum.splits)
qed

text \<open>
  Claim C10. \<^verbatim>\<open>max_events=0\<close> does not mean "no records": the guard tests the
  truthiness of \<^verbatim>\<open>max_events\<close>, so the call behaves as with
  \<^verbatim>\<open>max_events=None\<close>, whatever the server answers and for every bound on the number
  of rounds. A full page never ends the loop, however many records have been accumulated;
  a short page ends it with everything accumulated.
\<close>

theorem max_events_zero_unlimited:
  "fetch_all_active_events fuel http (Some 0) = fetch_all_active_events fuel http None
   \<and> (status_code (http 100 offset) = 200 \<and> json_body (http 100 offset) = Inr events
        \<and> 100 \<le> length events \<longrightarrow>
      fetch_loop (Suc fuel) http (Some 0) all_events offset =
        fetch_loop fuel http (Some 0) (all_events @ events) (offset + 100))
   \<and> (status_code (http 100 offset) = 200 \<and> json_body (http 100 offset) = Inr events
        \<and> length events < 100 \<longrightarrow>
      fetch_loop (Suc fuel) http (Some 0) all_events offset = Some (Inr (all_events @ events)))"
proof -
  have a: "fetch_all_active_events fuel http (Some 0) = fetch_all_active_events fuel http None"
    by (simp add: fetch_all_active_events_def fetch_loop_zero_is_none)
  have b: "status_code (http 100 offset) = 200 \<and> json_body (http 100 offset) = Inr events
        \<and> 100 \<le> length events \<longrightarrow>
      fetch_loop (Suc fuel) http (Some 0) all_events offset =
        fetch_loop fuel http (Some 0) (all_events @ events) (offset + 100)"
    by (auto simp add: fetch_active_events_def Let_def)
  have c: "status_code (http 100 offset) = 200 \<and> json_body (http 100 offset) = Inr events
        \<and> length events < 100 \<longrightarrow>
      fetch_loop (Suc fuel) http (Some 0) all_events offset = Some (Inr (all_events @ events))"
    by (auto simp add: fetch_active_events_def Let_def)
  from a b c show ?thesis by blast
qed

theorem max_events_zero_unlimited_witness:
  "fetch_all_active_events 3
     (\<lambda>limit offset. \<lparr>status_code = 200,
        json_body = Inr (if offset = 0 then replicate 100 (PInt 1) else [PInt 2])\<rparr>) (Some 0)
   = Some (Inr (replicate 100 (PInt 1) @ [PInt 2]))"
proof -
  let ?http = "\<lambda>(limit::nat) (offset::nat). \<lparr>status_code = 200,
        json_body = Inr (if offset = 0 then replicate 100 (PInt 1) else [PInt 2])\<rparr>"
  have s1: "fetch_loop (Suc 2) ?http (Some 0) [] 0 =
            fetch_loop 2 ?http (Some 0) ([] @ replicate 100 (PInt 1)) (0 + 100)"
    using max_events_zero_unlimited [where http = ?http and offset = 0 and fuel = 2
        and events = "replicate 100 (PInt 1)" and all_events = "[]"]
    by simp
  have s2: "fetch_loop (Suc 1) ?http (Some 0) (replicate 100 (PInt 1)) 100 =
            Some (Inr (replicate 100 (PInt 1) @ [PInt 2]))"
    using max_events_zero_unlimited [where http = ?http and offset = 100 and fuel = 1
        and events = "[PInt 2]" and all_events = "replicate 100 (PInt 1)"]
    by simp
  have n: "(3::nat) = Suc 2" "(2::nat) = Suc 1" by simp_all
  show ?thesis
    unfolding fetch_all_active_events_def
    using s1 s2 by (simp only: n append_Nil add_0)
qed

text \<open>
  Claim C1, at an input where it fails. The server holds two events and
  \<^verbatim>\<open>max_events\<close> is 1: the first page is short, the loop is left by the short-page
  test, which comes before the truncation, and both records are returned.
\<close>

theorem max_events_exceeded_on_short_page:
  "fetch_all_active_events 1
     (\<lambda>limit offset. \<lparr>status_code = 200,
        json_body = Inr (if offset = 0 then [PDict [(''id'', PInt 1)], PDict [(''id'', PInt 2)]]
                         else [])\<rparr>) (Some 1)
   = Some (Inr [PDict [(''id'', PInt 1)], PDict [(''id'', PInt 2)]])"
  by (simp add: fetch_all_active_events_def fetch_active_events_def)

section \<open>Properties of the field mapping\<close>

lemmas lookup_simps =
  map_of_Cons_code list.inject char.inject simp_thms if_True if_False list.simps
  fst_conv snd_conv prod.inject option.inject option.sel sum.inject map_sum.simps id_apply
  list.set ball_simps case_prod_conv

lemma parse_datetime_returns: "\<exists>r. parse_datetime L v = Inr r"
  by (simp add: parse_datetime_def split: sum.splits)

lemma bind_r_Inr: "bind_r m f = Inr y \<Longrightarrow> \<exists>x. m = Inr x \<and> f x = Inr y"
  by (cases m) (simp_all add: bind_r_def)

lemma double_overflow_zero [simp]: "\<not> double_overflow 0"
  by (simp add: double_overflow_def)

lemma py_float_zero: "py_float L (PInt 0) = Inr (PFloat 0)"
  by simp

lemma create_event_defaults:
  "\<exists>e. create_event_from_api L (PDict d) = Inr e
       \<and> (\<forall>(a, k, dv) \<in> set event_defaults. map_of e a = Some (dict_get d k dv))"
proof -
  obtain c1 where c1: "parse_datetime L (dict_get d ''createdAt'' PNone) = Inr c1"
    using parse_datetime_returns by blast
  obtain c2 where c2: "parse_datetime L (dict_get d ''updatedAt'' PNone) = Inr c2"
    using parse_datetime_returns by blast
  obtain c3 where c3: "parse_datetime L (dict_get d ''startTime'' PNone) = Inr c3"
    using parse_datetime_returns by blast
  obtain c4 where c4: "parse_datetime L (dict_get d ''endDate'' PNone) = Inr c4"
    using parse_datetime_returns by blast
  show ?thesis
    unfolding create_event_from_api_def event_defaults_def
    apply (simp only: as_dict.simps bind_r_def c1 c2 c3 c4 sum.case)
    apply (rule exI, rule conjI, rule refl)
    apply (simp only: lookup_simps)
    done
qed

lemma create_market_defaults:
  assumes "create_market_from_api L (PDict d) event_id = Inr m"
  shows "(\<forall>(a, k, dv) \<in> set market_defaults. map_of m a = Some (dict_get d k dv))
       \<and> (\<forall>(a, k) \<in> set market_float_fields.
            map_sum id Some (py_float L (dict_get d k (PInt 0))) = Inr (map_of m a))"
  using assms unfolding create_market_from_api_def market_defaults_def market_float_fields_def
  apply (simp only: as_dict.simps)
  apply (drule bind_r_Inr, elim exE conjE)+
  apply (simp only: sum.inject)
  apply hypsubst
  apply (simp only: lookup_simps)
  done

lemma create_market_null_float:
  assumes "(a, k) \<in> set market_float_fields" "map_of d k = Some PNone"
  shows "\<exists>x. create_market_from_api L (PDict d) event_id = Inl x"
proof (cases "create_market_from_api L (PDict d) event_id")
  case (Inl x)
  then show ?thesis by blast
next
  case (Inr m)
  from create_market_defaults [OF Inr] assms(1)
  have "map_sum id Some (py_float L (dict_get d k (PInt 0))) = Inr (map_of m a)" by blast
  with assms(2) show ?thesis by (simp add: dict_get_def)
qed

lemma create_market_no_float_keys:
  assumes "\<forall>(a, k) \<in> set market_float_fields. map_of d k = None"
  shows "\<exists>m. create_market_from_api L (PDict d) event_id = Inr m"
proof -
  obtain c1 where c1: "parse_datetime L (dict_get d ''createdAt'' PNone) = Inr c1"
    using parse_datetime_returns by blast
  obtain c2 where c2: "parse_datetime L (dict_get d ''updatedAt'' PNone) = Inr c2"
    using parse_datetime_returns by blast
  obtain c3 where c3: "parse_datetime L (dict_get d ''startDate'' PNone) = Inr c3"
    using parse_datetime_returns by blast
  obtain c4 where c4: "parse_datetime L (dict_get d ''endDate'' PNone) = Inr c4"
    using parse_datetime_returns by blast
  obtain c5 where c5: "parse_datetime L (dict_get d ''eventStartTime'' PNone) = Inr c5"
    using parse_datetime_returns by blast
  obtain c6 where c6: "parse_datetime L (dict_get d ''acceptingOrdersTimestamp'' PNone) = Inr c6"
    using parse_datetime_returns by blast
  have f: "dict_get d ''bestBid'' (PInt 0) = PInt 0"
       "dict_get d ''bestAsk'' (PInt 0) = PInt 0"
       "dict_get d ''spread'' (PInt 0) = PInt 0"
       "dict_get d ''lastTradePrice'' (PInt 0) = PInt 0"
       "dict_get d ''oneHourPriceChange'' (PInt 0) = PInt 0"
       "dict_get d ''oneDayPriceChange'' (PInt 0) = PInt 0"
       "dict_get d ''oneWeekPriceChange'' (PInt 0) = PInt 0"
       "dict_get d ''oneMonthPriceChange'' (PInt 0) = PInt 0"
       "dict_get d ''oneYearPriceChange'' (PInt 0) = PInt 0"
       "dict_get d ''orderPriceMinTickSize'' (PInt 0) = PInt 0"
    using assms by (simp_all add: market_float_fields_def dict_get_def)
  show ?thesis
    unfolding create_market_from_api_def
    by (simp only: as_dict.simps bind_r_def c1 c2 c3 c4 c5 c6 f py_float_zero sum.case)
       blast
qed

text \<open>
  Claim C5, at an input where it fails: the raw event carries the key
  \<^verbatim>\<open>liquidity\<close> with the value null, and the numeric attribute of the Event is None.
\<close>

theorem null_reaches_numeric_attribute:
  "map_sum id (\<lambda>e. map_of e ''liquidity'')
     (create_event_from_api sample_lib (PDict [(''id'', PInt 1), (''liquidity'', PNone)]))
   = Inr (Some PNone)"
  by (simp add: create_event_from_api_def bind_r_def parse_datetime_def dict_get_def)

text \<open>
  Claim C5, amended. \<^verbatim>\<open>d.get(k, default)\<close> gives the default for a key that is absent
  and the stored value, null included, for a key that is present. On a raw dict
  \<^verbatim>\<open>create_event_from_api\<close> always returns, and every attribute with a default holds
  \<^verbatim>\<open>d.get(k, default)\<close>: 0, False or the empty list when the key is absent, None when
  it is present with null. When \<^verbatim>\<open>create_market_from_api\<close> returns, the same holds of
  its attributes stored as read, and each attribute passed through \<^verbatim>\<open>float\<close> holds the
  conversion of \<^verbatim>\<open>d.get(k, 0)\<close>, which is 0.0 when the key is absent. It raises when
  such a key is present with null, and returns when all such keys are absent.
\<close>

theorem mapping_defaults:
  "(map_of d k = None \<longrightarrow> dict_get d k dv = dv)
   \<and> (map_of d k = Some v \<longrightarrow> dict_get d k dv = v)
   \<and> (\<exists>e. create_event_from_api L (PDict d) = Inr e
          \<and> (\<forall>(a, k, dv) \<in> set event_defaults. map_of e a = Some (dict_get d k dv)))
   \<and> (\<forall>m. create_market_from_api L (PDict d) event_id = Inr m \<longrightarrow>
          (\<forall>(a, k, dv) \<in> set market_defaults. map_of m a = Some (dict_get d k dv))
        \<and> (\<forall>(a, k) \<in> set market_float_fields.
             map_sum id Some (py_float L (dict_get d k (PInt 0))) = Inr (map_of m a)))
   \<and> py_float L (PInt 0) = Inr (PFloat 0)
   \<and> (\<forall>(a, k) \<in> set market_float_fields. map_of d k = Some PNone \<longrightarrow>
          (\<exists>x. create_market_from_api L (PDict d) event_id = Inl x))
   \<and> ((\<forall>(a, k) \<in> set market_float_fields. map_of d k = None) \<longrightarrow>
          (\<exists>m. create_market_from_api L (PDict d) event_id = Inr m))"
proof -
  have a: "map_of d k = None \<longrightarrow> dict_get d k dv = dv"
    and b: "map_of d k = Some v \<longrightarrow> dict_get d k dv = v"
    by (simp_all add: dict_get_def)
  have c: "\<forall>(a, k) \<in> set market_float_fields. map_of d k = Some PNone \<longrightarrow>
          (\<exists>x. create_market_from_api L (PDict d) event_id = Inl x)"
    using create_market_null_float by blast
  from a b c create_event_defaults [of L d] create_market_defaults [of L d event_id]
    create_market_no_float_keys [of d L event_id]
  show ?thesis by simp
qed

theorem mapping_defaults_witness:
  "(\<exists>e. create_event_from_api sample_lib (PDict [(''id'', PInt 7), (''volume'', PNone)]) = Inr e
        \<and> map_of e ''liquidity'' = Some (PInt 0) \<and> map_of e ''active'' = Some (PBool False)
        \<and> map_of e ''tags'' = Some (PList []) \<and> map_of e ''volume'' = Some PNone)
   \<and> (\<exists>m. create_market_from_api sample_lib (PDict [(''id'', PInt 7), (''volume'', PNone)]) ''1''
             = Inr m
        \<and> map_of m ''best_bid'' = Some (PFloat 0) \<and> map_of m ''outcomes'' = Some (PList [])
        \<and> map_of m ''cyom'' = Some (PBool False))
   \<and> (\<exists>x. create_market_from_api sample_lib (PDict [(''spread'', PNone)]) ''1'' = Inl x)"
proof -
  let ?d = "[(''id'', PInt 7), (''volume'', PNone)]"
  note t = mapping_defaults [where L = sample_lib and d = ?d and event_id = "''1''"]
  from t obtain e where e: "create_event_from_api sample_lib (PDict ?d) = Inr e"
    "\<forall>(a, k, dv) \<in> set event_defaults. map_of e a = Some (dict_get ?d k dv)"
    by blast
  have e': "map_of e ''liquidity'' = Some (PInt 0) \<and> map_of e ''active'' = Some (PBool False)
        \<and> map_of e ''tags'' = Some (PList []) \<and> map_of e ''volume'' = Some PNone"
    using e(2) by (simp add: event_defaults_def dict_get_def)
  have h: "\<forall>(a, k) \<in> set market_float_fields. map_of ?d k = None"
    by (simp add: market_float_fields_def)
  from t h obtain m where m: "create_market_from_api sample_lib (PDict ?d) ''1'' = Inr m"
    by blast
  from t m have m2: "\<forall>(a, k, dv) \<in> set market_defaults. map_of m a = Some (dict_get ?d k dv)"
    "\<forall>(a, k) \<in> set market_float_fields.
       map_sum id Some (py_float sample_lib (dict_get ?d k (PInt 0))) = Inr (map_of m a)"
    by blast+
  have m': "map_of m ''outcomes'' = Some (PList []) \<and> map_of m ''cyom'' = Some (PBool False)"
    using m2(1) by (simp add: market_defaults_def dict_get_def)
  have m'': "map_of m ''best_bid'' = Some (PFloat 0)"
    using m2(2) by (simp add: market_float_fields_def dict_get_def)
  have h2: "(''spread'', ''spread'') \<in> set market_float_fields"
    "map_of [(''spread'', PNone)] ''spread'' = Some PNone"
    by (simp_all add: market_float_fields_def)
  have x: "\<exists>x. create_market_from_api sample_lib (PDict [(''spread'', PNone)]) ''1'' = Inl x"
    using mapping_defaults [where L = sample_lib and d = "[(''spread'', PNone)]"
        and event_id = "''1''"] h2
    by blast
  from e(1) e' m m' m'' x show ?thesis by blast
qed

section \<open>Properties of the tag search\<close>

lemma bind_r_Inr_iff: "bind_r m f = Inr y \<longleftrightarrow> (\<exists>x. m = Inr x \<and> f x = Inr y)"
  by (cases m) (simp_all add: bind_r_def)

lemma scan_events_bound:
  "1 \<le> limit \<Longrightarrow> int (length acc) < limit \<Longrightarrow> scan_events kw limit es acc = Inr r
     \<Longrightarrow> int (length r) \<le> limit"
proof (induction es arbitrary: acc)
  case Nil
  then show ?case by simp
next
  case (Cons e es)
  from Cons.prems(3) obtain b where b: "event_matches kw e = Inr b"
    and r: "(let acc' = (if b then acc @ [e] else acc) in
             if limit \<le> int (length acc') then Inr acc'
             else scan_events kw limit es acc') = Inr r"
    by (auto simp add: bind_r_Inr_iff)
  show ?case
  proof (cases "limit \<le> int (length (if b then acc @ [e] else acc))")
    case True
    with r Cons.prems(2) show ?thesis by (auto simp add: Let_def split: if_splits)
  next
    case False
    with r have "scan_events kw limit es (if b then acc @ [e] else acc) = Inr r"
      by (simp add: Let_def)
    from Cons.IH [OF Cons.prems(1) _ this] False show ?thesis by simp
  qed
qed

lemma scan_events_subset:
  "scan_events kw limit es acc = Inr r \<Longrightarrow> set r \<subseteq> set acc \<union> set es"
proof (induction es arbitrary: acc)
  case Nil
  then show ?case by simp
next
  case (Cons e es)
  from Cons.prems obtain b where b: "event_matches kw e = Inr b"
    and r: "(let acc' = (if b then acc @ [e] else acc) in
             if limit \<le> int (length acc') then Inr acc'
             else scan_events kw limit es acc') = Inr r"
    by (auto simp add: bind_r_Inr_iff)
  show ?case
  proof (cases "limit \<le> int (length (if b then acc @ [e] else acc))")
    case True
    with r show ?thesis by (auto simp add: Let_def split: if_splits)
  next
    case False
    with r have "scan_events kw limit es (if b then acc @ [e] else acc) = Inr r"
      by (simp add: Let_def)
    from Cons.IH [OF this] show ?thesis by (auto split: if_splits)
  qed
qed

lemma get_events_by_tag_bound:
  "1 \<le> limit \<Longrightarrow> get_events_by_tag store now kw limit = Inr r
     \<Longrightarrow> int (length r) \<le> limit \<and> (\<forall>e \<in> set r. future_active now e)"
proof -
  assume l: "1 \<le> limit" and g: "get_events_by_tag store now kw limit = Inr r"
  let ?es = "filter (future_active now) (map snd (events_tbl store))"
  from g have s: "scan_events kw limit ?es [] = Inr r"
    by (simp add: get_events_by_tag_def Let_def)
  from l have "int (length ([]::row list)) < limit" by simp
  from scan_events_bound [OF l this s] have a: "int (length r) \<le> limit" .
  from scan_events_subset [OF s] have "set r \<subseteq> set ?es" by simp
  then have b: "\<forall>e \<in> set r. future_active now e" by auto
  from a b show ?thesis by simp
qed

lemma lower_crypto: "lower ''Crypto'' = ''crypto''" "lower ''CRYPTO'' = ''crypto''"
  "lower ''crypto'' = ''crypto''" "lower ''sports'' = ''sports''"
  by code_simp+

lemma crypto_tag_scenario:
  "tag_matches ''crypto'' (PDict [(''label'', PStr ''Crypto''), (''slug'', PStr ''crypto'')]) = Inr True"
  "tag_matches ''CRYPTO'' (PDict [(''label'', PStr ''Crypto''), (''slug'', PStr ''crypto'')]) = Inr True"
  "tag_matches ''sports'' (PDict [(''label'', PStr ''Crypto''), (''slug'', PStr ''crypto'')]) = Inr False"
  by (simp_all add: bind_r_def dict_get_def lower_crypto)

text \<open>
  Claim C8, at an input where it fails. The store holds one active event that ends in
  the future and carries the tag Crypto; the search for crypto with \<^verbatim>\<open>limit=0\<close>
  returns that event: the test \<^verbatim>\<open>len(matching_events) >= limit\<close> comes after the
  event has been appended.
\<close>

theorem limit_zero_returns_an_event:
  "map_sum id length
     (get_events_by_tag
        \<lparr>events_tbl =
           [(''1'', [''end_date'' \<mapsto> PDatetime 10, ''active'' \<mapsto> PBool True,
                     ''tags'' \<mapsto> PList [PDict [(''label'', PStr ''Crypto''),
                                                 (''slug'', PStr ''crypto'')]]])],
         markets_tbl = []\<rparr>
        5 ''crypto'' 0)
   = Inr 1"
  by (simp add: get_events_by_tag_def future_active_def event_matches_def bind_r_def
      dict_get_def lower_crypto)

section \<open>Properties of the reconciliation\<close>

subsection \<open>Rows and candidates\<close>

lemma setattrs_map_add: "setattrs r ob = r ++ setattrs Map.empty ob"
proof (induction ob arbitrary: r)
  case Nil
  show ?case by simp
next
  case (Cons kv kvs)
  show ?case
  proof (cases "private_key (fst kv)")
    case True
    then show ?thesis using Cons.IH [of r] by simp
  next
    case False
    have "setattrs r (kv # kvs) = setattrs (r(fst kv \<mapsto> snd kv)) kvs"
      using False by simp
    also have "\<dots> = r(fst kv \<mapsto> snd kv) ++ setattrs Map.empty kvs"
      by (rule Cons.IH)
    also have "\<dots> = r ++ ([fst kv \<mapsto> snd kv] ++ setattrs Map.empty kvs)"
      by (simp only: map_add_assoc map_add_upd map_add_empty)
    also have "[fst kv \<mapsto> snd kv] ++ setattrs Map.empty kvs = setattrs [fst kv \<mapsto> snd kv] kvs"
      by (rule Cons.IH [symmetric])
    also have "setattrs [fst kv \<mapsto> snd kv] kvs = setattrs Map.empty (kv # kvs)"
      using False by simp
    finally show ?thesis .
  qed
qed

lemma setattrs_row_of: "setattrs r ob = r ++ row_of ob"
  using setattrs_map_add [of r ob] by (simp add: row_of_def)

lemma dom_setattrs:
  "dom (setattrs r ob) = dom r \<union> {k \<in> fst ` set ob. \<not> private_key k}"
  by (induction ob arbitrary: r) auto

lemma dom_row_of: "dom (row_of ob) = set (filter (\<lambda>k. \<not> private_key k) (map fst ob))"
  by (auto simp add: row_of_def dom_setattrs)

lemma public_event_columns:
  "filter (\<lambda>k. \<not> private_key k) (''_sa_instance_state'' # event_columns) = event_columns"
  by (simp add: event_columns_def private_key_def)

lemma public_market_columns:
  "filter (\<lambda>k. \<not> private_key k) (''_sa_instance_state'' # market_columns) = market_columns"
  by (simp add: market_columns_def private_key_def)

lemma as_dict_Inr: "as_dict x = Inr d \<Longrightarrow> x = PDict d"
  by (cases x) simp_all

lemma create_event_keys:
  assumes "create_event_from_api L x = Inr ob"
  shows "map fst ob = ''_sa_instance_state'' # event_columns"
proof (cases x)
  case (PDict d)
  with assms show ?thesis
    unfolding create_event_from_api_def event_columns_def
    apply (simp only: as_dict.simps)
    apply (drule bind_r_Inr, elim exE conjE)+
    apply (simp only: sum.inject)
    apply hypsubst
    apply (simp only: list.map fst_conv)
    done
qed (use assms in \<open>simp_all add: create_event_from_api_def bind_r_def\<close>)

lemma create_market_keys:
  assumes "create_market_from_api L x event_id = Inr ob"
  shows "map fst ob = ''_sa_instance_state'' # market_columns"
proof (cases x)
  case (PDict d)
  with assms show ?thesis
    unfolding create_market_from_api_def market_columns_def
    apply (simp only: as_dict.simps)
    apply (drule bind_r_Inr, elim exE conjE)+
    apply (simp only: sum.inject)
    apply hypsubst
    apply (simp only: list.map fst_conv)
    done
qed (use assms in \<open>simp_all add: create_market_from_api_def bind_r_def\<close>)

lemma create_event_dom:
  "create_event_from_api L x = Inr ob \<Longrightarrow> dom (row_of ob) = set event_columns"
  by (simp only: dom_row_of create_event_keys public_event_columns)

lemma create_market_dom:
  "create_market_from_api L x event_id = Inr ob \<Longrightarrow> dom (row_of ob) = set market_columns"
  by (simp only: dom_row_of create_market_keys public_market_columns)

subsection \<open>The steps of the session\<close>

lemma bind_s_Inr:
  "bind_s m f = (Inr y, s') \<Longrightarrow> \<exists>x s1. m = (Inr x, s1) \<and> f x s1 = (Inr y, s')"
  by (cases m; cases "fst m") (auto simp add: bind_s_def)

lemma bind_s_Inl:
  "bind_s m f = (Inl e, s') \<Longrightarrow>
     m = (Inl e, s') \<or> (\<exists>x s1. m = (Inr x, s1) \<and> f x s1 = (Inl e, s'))"
  by (cases m; cases "fst m") (auto simp add: bind_s_def)

lemma flush_Inr: "flush L s = (Inr u, s1) \<Longrightarrow> s1 = s\<lparr>unflushed := None\<rparr>"
  by (auto simp add: flush_def split: option.splits if_splits)

lemma flush_tables: "flush L s = (r, s1) \<Longrightarrow> pending s1 = pending s \<and> committed s1 = committed s"
  by (auto simp add: flush_def split: option.splits if_splits)

lemma upsert_single:
  "upsert t [i \<mapsto> c] = t(i \<mapsto> (case t i of None \<Rightarrow> Map.empty | Some r \<Rightarrow> r) ++ c)"
  by (rule ext) (simp add: upsert_def)

lemma upsert_empty: "upsert t Map.empty = t"
  by (rule ext) (simp add: upsert_def)

text \<open>One market record, processed without an exception.\<close>

lemma process_market_Inr:
  assumes "process_market L event_id m c s = (Inr c', s')"
  shows "\<exists>ob. create_market_from_api L m event_id = Inr ob
      \<and> s' = write_market (record_id L m)
               ((case map_of (markets_tbl (pending s)) (record_id L m) of
                   None \<Rightarrow> Map.empty | Some r \<Rightarrow> r) ++ row_of ob)
               (s\<lparr>unflushed := None\<rparr>)
      \<and> c' = (case map_of (markets_tbl (pending s)) (record_id L m) of
                None \<Rightarrow> c\<lparr>markets_added := markets_added c + 1\<rparr>
              | Some r \<Rightarrow> c\<lparr>markets_updated := markets_updated c + 1\<rparr>)"
proof -
  from assms obtain d where d: "as_dict m = Inr d"
    by (auto simp add: process_market_def lift_s_def dest!: bind_s_Inr)
  then have m: "m = PDict d" by (rule as_dict_Inr)
  have i: "record_id L (PDict d) = py_str L (dict_get d ''id'' PNone)"
    by (simp add: record_id_def)
  from assms obtain u s1 where f: "flush L s = (Inr u, s1)"
    by (auto simp add: process_market_def lift_s_def query_market_def Let_def m dest!: bind_s_Inr)
  then have s1: "s1 = s\<lparr>unflushed := None\<rparr>" by (rule flush_Inr)
  show ?thesis
    using assms
    by (cases "map_of (markets_tbl (pending s)) (py_str L (dict_get d ''id'' PNone))")
       (auto simp add: process_market_def lift_s_def query_market_def Let_def m i f s1
          bind_s_def setattrs_row_of split: sum.splits)
qed

lemma map_add_absorb: "dom c1 \<subseteq> dom c2 \<Longrightarrow> (b ++ c1) ++ c2 = b ++ c2"
proof (rule ext)
  fix k
  assume d: "dom c1 \<subseteq> dom c2"
  show "((b ++ c1) ++ c2) k = (b ++ c2) k"
  proof (cases "c2 k")
    case None
    with d have "c1 k = None" by (auto simp add: dom_def)
    with None show ?thesis by (simp add: map_add_def)
  next
    case (Some v)
    then show ?thesis by (simp add: map_add_def)
  qed
qed

lemma upsert_upsert:
  assumes "\<And>i c1 c2. w1 i = Some c1 \<Longrightarrow> w2 i = Some c2 \<Longrightarrow> dom c1 \<subseteq> dom c2"
  shows "upsert (upsert t w1) w2 = upsert t (w1 ++ w2)"
proof (rule ext)
  fix i
  show "upsert (upsert t w1) w2 i = upsert t (w1 ++ w2) i"
  proof (cases "w2 i")
    case None
    then show ?thesis by (simp add: upsert_def map_add_def)
  next
    case (Some c2)
    show ?thesis
    proof (cases "w1 i")
      case None
      with Some show ?thesis by (simp add: upsert_def map_add_def)
    next
      case (Some c1)
      with \<open>w2 i = Some c2\<close> assms have "dom c1 \<subseteq> dom c2" by blast
      then have "\<And>b. (b ++ c1) ++ c2 = b ++ c2" by (rule map_add_absorb)
      with Some \<open>w2 i = Some c2\<close> show ?thesis by (simp add: upsert_def map_add_def)
    qed
  qed
qed

lemma upsert_idem: "upsert (upsert t w) w = upsert t w"
proof -
  have a: "\<And>b c::row. (b ++ c) ++ c = b ++ c"
    by (rule map_add_absorb) simp
  have b: "\<And>c::row. c ++ c = c"
    by (rule ext) (simp add: map_add_def split: option.splits)
  show ?thesis
    by (rule ext) (simp add: upsert_def a b split: option.splits)
qed

lemma dom_upsert: "dom (upsert t w) = dom t \<union> dom w"
  by (auto simp add: upsert_def dom_def split: option.splits)

lemma market_writes_of_dom:
  "market_writes_of L event_id ms i = Some c \<Longrightarrow> dom c = set market_columns"
proof (induction ms)
  case Nil
  then show ?case by simp
next
  case (Cons m ms)
  show ?case
  proof (cases "market_writes_of L event_id ms i")
    case (Some c')
    with Cons.prems have "c = c'" by (simp add: map_add_def)
    with Some Cons.IH show ?thesis by simp
  next
    case None
    with Cons.prems have h: "(case create_market_from_api L m event_id of Inr ob \<Rightarrow> [record_id L m \<mapsto> row_of ob] | Inl e \<Rightarrow> Map.empty) i = Some c"
      by (simp add: map_add_def)
    then obtain ob where "create_market_from_api L m event_id = Inr ob" "c = row_of ob"
      by (auto split: sum.splits if_splits)
    then show ?thesis by (simp only: create_market_dom)
  qed
qed

lemma market_writes_dom:
  "market_writes L xs i = Some c \<Longrightarrow> dom c = set market_columns"
proof (induction xs)
  case Nil
  then show ?case by simp
next
  case (Cons x xs)
  show ?case
  proof (cases "market_writes L xs i")
    case (Some c')
    with Cons.prems have "c = c'" by (simp add: map_add_def)
    with Some Cons.IH show ?thesis by simp
  next
    case None
    with Cons.prems have h: "(market_writes_of L (record_id L x) (markets_of x)) i = Some c"
      by (simp add: map_add_def)
    then show ?thesis by (rule market_writes_of_dom)
  qed
qed

lemma event_writes_dom:
  "event_writes L xs i = Some c \<Longrightarrow> dom c = set event_columns"
proof (induction xs)
  case Nil
  then show ?case by simp
next
  case (Cons x xs)
  show ?case
  proof (cases "event_writes L xs i")
    case (Some c')
    with Cons.prems have "c = c'" by (simp add: map_add_def)
    with Some Cons.IH show ?thesis by simp
  next
    case None
    with Cons.prems have h: "(case create_event_from_api L x of Inr ob \<Rightarrow> [record_id L x \<mapsto> row_of ob] | Inl e \<Rightarrow> Map.empty) i = Some c"
      by (simp add: map_add_def)
    then obtain ob where "create_event_from_api L x = Inr ob" "c = row_of ob"
      by (auto split: sum.splits if_splits)
    then show ?thesis by (simp only: create_event_dom)
  qed
qed

lemma write_market_simps:
  "map_of (markets_tbl (pending (write_market i r s))) = (map_of (markets_tbl (pending s)))(i \<mapsto> r)"
  "fst ` set (markets_tbl (pending (write_market i r s))) = insert i (fst ` set (markets_tbl (pending s)))"
  "events_tbl (pending (write_market i r s)) = events_tbl (pending s)"
  "committed (write_market i r s) = committed s"
  "unflushed (write_market i r s) = Some (''markets'', i)"
  by (simp_all add: write_market_def update_conv' dom_update)

lemma write_event_simps:
  "map_of (events_tbl (pending (write_event i r s))) = (map_of (events_tbl (pending s)))(i \<mapsto> r)"
  "fst ` set (events_tbl (pending (write_event i r s))) = insert i (fst ` set (events_tbl (pending s)))"
  "markets_tbl (pending (write_event i r s)) = markets_tbl (pending s)"
  "committed (write_event i r s) = committed s"
  "unflushed (write_event i r s) = Some (''events'', i)"
  by (simp_all add: write_event_def update_conv' dom_update)

text \<open>The inner loop, run without an exception.\<close>

lemma process_markets_Inr:
  assumes "process_markets L event_id ms c s = (Inr c', s')"
  shows "map_of (markets_tbl (pending s'))
           = upsert (map_of (markets_tbl (pending s))) (market_writes_of L event_id ms)
       \<and> fst ` set (markets_tbl (pending s'))
           = fst ` set (markets_tbl (pending s)) \<union> record_id L ` set ms
       \<and> events_tbl (pending s') = events_tbl (pending s)
       \<and> committed s' = committed s
       \<and> markets_added c' + markets_updated c' = markets_added c + markets_updated c + length ms
       \<and> events_added c' = events_added c \<and> events_updated c' = events_updated c"
  using assms
proof (induction ms arbitrary: c s)
  case Nil
  then show ?case by (simp add: upsert_empty)
next
  case (Cons m ms)
  from Cons.prems obtain c1 s1 where
    1: "process_market L event_id m c s = (Inr c1, s1)" and
    2: "process_markets L event_id ms c1 s1 = (Inr c', s')"
    by (auto dest!: bind_s_Inr)
  from process_market_Inr [OF 1] obtain ob where
    ob: "create_market_from_api L m event_id = Inr ob" and
    s1: "s1 = write_market (record_id L m)
               ((case map_of (markets_tbl (pending s)) (record_id L m) of
                   None \<Rightarrow> Map.empty | Some r \<Rightarrow> r) ++ row_of ob)
               (s\<lparr>unflushed := None\<rparr>)" and
    c1: "c1 = (case map_of (markets_tbl (pending s)) (record_id L m) of
                None \<Rightarrow> c\<lparr>markets_added := markets_added c + 1\<rparr>
              | Some r \<Rightarrow> c\<lparr>markets_updated := markets_updated c + 1\<rparr>)"
    by blast
  have m1: "map_of (markets_tbl (pending s1))
            = upsert (map_of (markets_tbl (pending s))) [record_id L m \<mapsto> row_of ob]"
    by (simp add: s1 write_market_simps upsert_single)
  have w: "upsert (upsert (map_of (markets_tbl (pending s))) [record_id L m \<mapsto> row_of ob])
             (market_writes_of L event_id ms)
           = upsert (map_of (markets_tbl (pending s)))
               ([record_id L m \<mapsto> row_of ob] ++ market_writes_of L event_id ms)"
  proof (rule upsert_upsert)
    fix i c1 c2
    assume "[record_id L m \<mapsto> row_of ob] i = Some c1" "market_writes_of L event_id ms i = Some c2"
    then have "dom c1 = set market_columns" "dom c2 = set market_columns"
      using create_market_dom [OF ob] market_writes_of_dom [of L event_id ms i c2]
      by (auto split: if_splits)
    then show "dom c1 \<subseteq> dom c2" by simp
  qed
  have k1: "fst ` set (markets_tbl (pending s1))
            = insert (record_id L m) (fst ` set (markets_tbl (pending s)))"
    by (simp add: s1 write_market_simps)
  have e1: "events_tbl (pending s1) = events_tbl (pending s)" "committed s1 = committed s"
    by (simp_all add: s1 write_market_simps)
  have n1: "markets_added c1 + markets_updated c1 = markets_added c + markets_updated c + 1"
    "events_added c1 = events_added c" "events_updated c1 = events_updated c"
    by (simp_all add: c1 split: option.splits)
  from Cons.IH [OF 2] m1 w k1 e1 n1 ob show ?case by auto
qed

text \<open>One raw event, processed without an exception.\<close>

lemma process_event_Inr:
  assumes "process_event L x c s = (Inr c', s')"
  shows "\<exists>ob. create_event_from_api L x = Inr ob
      \<and> process_markets L (record_id L x) (markets_of x)
           (case map_of (events_tbl (pending s)) (record_id L x) of
              None \<Rightarrow> c\<lparr>events_added := events_added c + 1\<rparr>
            | Some r \<Rightarrow> c\<lparr>events_updated := events_updated c + 1\<rparr>)
           (write_event (record_id L x)
              ((case map_of (events_tbl (pending s)) (record_id L x) of
                  None \<Rightarrow> Map.empty | Some r \<Rightarrow> r) ++ row_of ob)
              (s\<lparr>unflushed := None\<rparr>))
          = (Inr c', s')"
proof -
  from assms obtain d where d: "as_dict x = Inr d"
    by (auto simp add: process_event_def lift_s_def dest!: bind_s_Inr)
  then have x: "x = PDict d" by (rule as_dict_Inr)
  have i: "record_id L (PDict d) = py_str L (dict_get d ''id'' PNone)"
    by (simp add: record_id_def)
  from assms obtain u s1 where f: "flush L s = (Inr u, s1)"
    by (auto simp add: process_event_def lift_s_def query_event_def Let_def x dest!: bind_s_Inr)
  then have s1: "s1 = s\<lparr>unflushed := None\<rparr>" by (rule flush_Inr)
  show ?thesis
    using assms
    by (cases "map_of (events_tbl (pending s)) (py_str L (dict_get d ''id'' PNone))")
       (auto simp add: process_event_def lift_s_def query_event_def Let_def x i f s1
          bind_s_def setattrs_row_of markets_of_def split: sum.splits)
qed

lemma process_event_effect:
  assumes "process_event L x c s = (Inr c', s')"
  shows "\<exists>ob. create_event_from_api L x = Inr ob
       \<and> map_of (events_tbl (pending s'))
           = upsert (map_of (events_tbl (pending s))) [record_id L x \<mapsto> row_of ob]
       \<and> map_of (markets_tbl (pending s'))
           = upsert (map_of (markets_tbl (pending s)))
               (market_writes_of L (record_id L x) (markets_of x))
       \<and> fst ` set (events_tbl (pending s'))
           = insert (record_id L x) (fst ` set (events_tbl (pending s)))
       \<and> fst ` set (markets_tbl (pending s'))
           = fst ` set (markets_tbl (pending s)) \<union> record_id L ` set (markets_of x)
       \<and> committed s' = committed s
       \<and> events_added c' + events_updated c' = events_added c + events_updated c + 1
       \<and> markets_added c' + markets_updated c'
           = markets_added c + markets_updated c + length (markets_of x)"
proof -
  let ?c1 = "case map_of (events_tbl (pending s)) (record_id L x) of
              None \<Rightarrow> c\<lparr>events_added := events_added c + 1\<rparr>
            | Some r \<Rightarrow> c\<lparr>events_updated := events_updated c + 1\<rparr>"
  let ?s1 = "write_event (record_id L x)
              ((case map_of (events_tbl (pending s)) (record_id L x) of
                  None \<Rightarrow> Map.empty | Some r \<Rightarrow> r) ++ row_of ob)
              (s\<lparr>unflushed := None\<rparr>)"
  from process_event_Inr [OF assms] obtain ob where
    ob: "create_event_from_api L x = Inr ob" and
    p: "process_markets L (record_id L x) (markets_of x) ?c1
          (write_event (record_id L x)
              ((case map_of (events_tbl (pending s)) (record_id L x) of
                  None \<Rightarrow> Map.empty | Some r \<Rightarrow> r) ++ row_of ob)
              (s\<lparr>unflushed := None\<rparr>)) = (Inr c', s')"
    by blast
  have n1: "events_added ?c1 + events_updated ?c1 = events_added c + events_updated c + 1"
    "markets_added ?c1 = markets_added c" "markets_updated ?c1 = markets_updated c"
    by (simp_all split: option.splits)
  from process_markets_Inr [OF p] n1 ob show ?thesis
    by (simp add: write_event_simps upsert_single)
qed

text \<open>The outer loop, run without an exception.\<close>

lemma process_events_Inr:
  assumes "process_events L xs c s = (Inr c', s')"
  shows "map_of (events_tbl (pending s'))
           = upsert (map_of (events_tbl (pending s))) (event_writes L xs)
       \<and> map_of (markets_tbl (pending s'))
           = upsert (map_of (markets_tbl (pending s))) (market_writes L xs)
       \<and> fst ` set (events_tbl (pending s'))
           = fst ` set (events_tbl (pending s)) \<union> record_id L ` set xs
       \<and> fst ` set (markets_tbl (pending s'))
           = fst ` set (markets_tbl (pending s))
             \<union> (\<Union>x \<in> set xs. record_id L ` set (markets_of x))
       \<and> committed s' = committed s
       \<and> events_added c' + events_updated c' = events_added c + events_updated c + length xs
       \<and> markets_added c' + markets_updated c'
           = markets_added c + markets_updated c + total_markets xs"
  using assms
proof (induction xs arbitrary: c s)
  case Nil
  then show ?case by (simp add: upsert_empty total_markets_def)
next
  case (Cons x xs)
  from Cons.prems obtain c1 s1 where
    1: "process_event L x c s = (Inr c1, s1)" and
    2: "process_events L xs c1 s1 = (Inr c', s')"
    by (auto dest!: bind_s_Inr)
  from process_event_effect [OF 1] obtain ob where
    ob: "create_event_from_api L x = Inr ob" and
    e1: "map_of (events_tbl (pending s1))
           = upsert (map_of (events_tbl (pending s))) [record_id L x \<mapsto> row_of ob]" and
    m1: "map_of (markets_tbl (pending s1))
           = upsert (map_of (markets_tbl (pending s)))
               (market_writes_of L (record_id L x) (markets_of x))" and
    k1: "fst ` set (events_tbl (pending s1))
           = insert (record_id L x) (fst ` set (events_tbl (pending s)))"
        "fst ` set (markets_tbl (pending s1))
           = fst ` set (markets_tbl (pending s)) \<union> record_id L ` set (markets_of x)"
        "committed s1 = committed s" and
    n1: "events_added c1 + events_updated c1 = events_added c + events_updated c + 1"
        "markets_added c1 + markets_updated c1
           = markets_added c + markets_updated c + length (markets_of x)"
    by blast
  have we: "upsert (upsert (map_of (events_tbl (pending s))) [record_id L x \<mapsto> row_of ob])
             (event_writes L xs)
           = upsert (map_of (events_tbl (pending s))) (event_writes L (x # xs))"
  proof -
    have "upsert (upsert (map_of (events_tbl (pending s))) [record_id L x \<mapsto> row_of ob])
             (event_writes L xs)
           = upsert (map_of (events_tbl (pending s)))
               ([record_id L x \<mapsto> row_of ob] ++ event_writes L xs)"
    proof (rule upsert_upsert)
      fix i c1 c2
      assume "[record_id L x \<mapsto> row_of ob] i = Some c1" "event_writes L xs i = Some c2"
      then have "dom c1 = set event_columns" "dom c2 = set event_columns"
        using create_event_dom [OF ob] event_writes_dom [of L xs i c2]
        by (auto split: if_splits)
      then show "dom c1 \<subseteq> dom c2" by simp
    qed
    then show ?thesis by (simp add: ob)
  qed
  have wm: "upsert (upsert (map_of (markets_tbl (pending s)))
               (market_writes_of L (record_id L x) (markets_of x)))
             (market_writes L xs)
           = upsert (map_of (markets_tbl (pending s))) (market_writes L (x # xs))"
  proof -
    have "upsert (upsert (map_of (markets_tbl (pending s)))
               (market_writes_of L (record_id L x) (markets_of x)))
             (market_writes L xs)
           = upsert (map_of (markets_tbl (pending s)))
               (market_writes_of L (record_id L x) (markets_of x) ++ market_writes L xs)"
    proof (rule upsert_upsert)
      fix i c1 c2
      assume "market_writes_of L (record_id L x) (markets_of x) i = Some c1"
        "market_writes L xs i = Some c2"
      then have "dom c1 = set market_columns" "dom c2 = set market_columns"
        using market_writes_of_dom market_writes_dom by blast+
      then show "dom c1 \<subseteq> dom c2" by simp
    qed
    then show ?thesis by simp
  qed
  from Cons.IH [OF 2] e1 m1 k1 n1 we wm show ?case
    by (auto simp add: total_markets_def)
qed

subsection \<open>Nothing is committed inside the loops\<close>

lemma bind_s_committed:
  assumes "bind_s m f = (r, s')"
    and "\<And>r1 s1. m = (r1, s1) \<Longrightarrow> committed s1 = k"
    and "\<And>x s1 r2 s2. committed s1 = k \<Longrightarrow> f x s1 = (r2, s2) \<Longrightarrow> committed s2 = k"
  shows "committed s' = k"
proof (cases m)
  case (Pair r1 s1)
  show ?thesis
  proof (cases r1)
    case (Inl e)
    with Pair assms(1) have "s' = s1" by (simp add: bind_s_def)
    with Pair assms(2) show ?thesis by simp
  next
    case (Inr x)
    with Pair assms(1) have "f x s1 = (r, s')" by (simp add: bind_s_def)
    with Pair assms(2,3) show ?thesis by blast
  qed
qed

lemma process_market_committed:
  "process_market L event_id m c s = (r, s') \<Longrightarrow> committed s' = committed s"
  by (auto simp add: process_market_def query_market_def lift_s_def bind_s_def flush_def
      write_market_def Let_def split: sum.splits option.splits if_splits)

lemma process_markets_committed:
  "process_markets L event_id ms c s = (r, s') \<Longrightarrow> committed s' = committed s"
proof (induction ms arbitrary: c s r s')
  case Nil
  then show ?case by simp
next
  case (Cons m ms)
  from Cons.prems show ?case
    apply simp
    apply (erule bind_s_committed)
     apply (erule process_market_committed)
    apply (drule Cons.IH)
    apply simp
    done
qed

lemma process_event_committed:
  assumes "process_event L x c s = (r, s')"
  shows "committed s' = committed s"
proof -
  have w: "\<And>c1 s1 r1 s2. committed s1 = committed s \<Longrightarrow>
      (case ex of
          Some existing \<Rightarrow>
            bind_s (lift_s (create_event_from_api L x) s1) (\<lambda>e s.
              (Inr (c\<lparr>events_updated := events_updated c + 1\<rparr>),
               write_event i (setattrs existing e) s))
        | None \<Rightarrow>
            bind_s (lift_s (create_event_from_api L x) s1) (\<lambda>new_event s.
              (Inr (c\<lparr>events_added := events_added c + 1\<rparr>),
               write_event i (row_of new_event) s))) = (r1, s2)
      \<Longrightarrow> committed s2 = committed s" for i ex
    by (auto simp add: lift_s_def bind_s_def write_event_def split: sum.splits option.splits)
  from assms show ?thesis
    unfolding process_event_def query_event_def Let_def
    apply (erule_tac bind_s_committed)
     apply (simp add: lift_s_def)
    apply (erule_tac bind_s_committed)
     apply (auto simp add: bind_s_def flush_def split: option.splits if_splits)[1]
    apply (erule_tac bind_s_committed)
     apply (erule w, assumption)
    apply (erule_tac bind_s_committed)
     apply (simp add: lift_s_def)
    apply (drule process_markets_committed)
    apply simp
    done
qed

lemma process_events_committed:
  "process_events L xs c s = (r, s') \<Longrightarrow> committed s' = committed s"
proof (induction xs arbitrary: c s r s')
  case Nil
  then show ?case by simp
next
  case (Cons x xs)
  from Cons.prems show ?case
    apply simp
    apply (erule bind_s_committed)
     apply (erule process_event_committed)
    apply (drule Cons.IH)
    apply simp
    done
qed

lemma populate_database_unfold:
  "populate_database L store xs =
     (case process_events L xs no_counts (Session store) of
        (Inl e, s) \<Rightarrow> (Inl e, store)
      | (Inr c, s) \<Rightarrow>
          (case flush L s of
             (Inl e, s1) \<Rightarrow> (Inl e, store)
           | (Inr u, s1) \<Rightarrow> (Inr c, pending s)))"
proof (cases "process_events L xs no_counts (Session store)")
  case (Pair r s)
  from process_events_committed [OF Pair] have k: "committed s = store"
    by (simp add: Session_def)
  show ?thesis
  proof (cases r)
    case (Inl e)
    with Pair k show ?thesis
      by (simp add: populate_database_def bind_s_def rollback_def)
  next
    case (Inr c)
    obtain r1 s1 where f: "flush L s = (r1, s1)" by (cases "flush L s")
    from flush_tables [OF f] k have "pending s1 = pending s" "committed s1 = store"
      by simp_all
    with Pair Inr f show ?thesis
      by (cases r1) (simp_all add: populate_database_def bind_s_def commit_def rollback_def)
  qed
qed

subsection \<open>Atomicity\<close>

text \<open>
  Claim C3. Whatever exception is raised while a batch is processed, by the mapping of a
  record or by the database when a row is written (the verdict of the engine at a flush
  is arbitrary), \<^verbatim>\<open>populate_database\<close> raises that exception and the committed
  store is the one it started from: no row of the batch is visible, the rows written
  before the failure included. While the loops run the committed store does not change;
  when they end without an exception, the last row is flushed and everything pending is
  committed at once.
\<close>

theorem populate_database_atomic:
  "(populate_database L store xs = (Inl e, store') \<longrightarrow> store' = store)
   \<and> (process_events L xs no_counts (Session store) = (Inl e, s) \<longrightarrow>
        populate_database L store xs = (Inl e, store))
   \<and> (process_events L xs no_counts (Session store) = (Inr c, s) \<longrightarrow>
        committed s = store
        \<and> (fst (flush L s) = Inl e \<longrightarrow> populate_database L store xs = (Inl e, store))
        \<and> (fst (flush L s) = Inr () \<longrightarrow> populate_database L store xs = (Inr c, pending s)))
   \<and> (process_events L xs c0 s0 = (r, s1) \<longrightarrow> committed s1 = committed s0)
   \<and> (unflushed s = Some w \<and> flush_error L (pending s) (fst w) (snd w) = Some e \<longrightarrow>
        flush L s = (Inl e, s))"
proof -
  have a: "populate_database L store xs = (Inl e, store') \<longrightarrow> store' = store"
    by (auto simp add: populate_database_unfold split: prod.splits sum.splits)
  have b: "process_events L xs no_counts (Session store) = (Inl e, s) \<longrightarrow>
        populate_database L store xs = (Inl e, store)"
    by (simp add: populate_database_unfold)
  have c: "process_events L xs no_counts (Session store) = (Inr c, s) \<longrightarrow>
        committed s = store
        \<and> (fst (flush L s) = Inl e \<longrightarrow> populate_database L store xs = (Inl e, store))
        \<and> (fst (flush L s) = Inr () \<longrightarrow> populate_database L store xs = (Inr c, pending s))"
  proof
    assume p: "process_events L xs no_counts (Session store) = (Inr c, s)"
    from process_events_committed [OF p] have "committed s = store"
      by (simp add: Session_def)
    with p show "committed s = store
        \<and> (fst (flush L s) = Inl e \<longrightarrow> populate_database L store xs = (Inl e, store))
        \<and> (fst (flush L s) = Inr () \<longrightarrow> populate_database L store xs = (Inr c, pending s))"
      by (cases "flush L s") (auto simp add: populate_database_unfold)
  qed
  have d: "process_events L xs c0 s0 = (r, s1) \<longrightarrow> committed s1 = committed s0"
    using process_events_committed by blast
  have f: "unflushed s = Some w \<and> flush_error L (pending s) (fst w) (snd w) = Some e \<longrightarrow>
        flush L s = (Inl e, s)"
    by (simp add: flush_def)
  from a b c d f show ?thesis by blast
qed

theorem populate_database_atomic_witness:
  "fst (populate_database sample_lib empty_db
      [PDict [(''id'', PInt 1), (''markets'', PList [PDict [(''id'', PInt 10)]])],
       PDict [(''id'', PInt 2),
              (''markets'', PList [PDict [(''id'', PInt 20), (''bestBid'', PNone)]])]])
   = Inl TypeError
   \<and> snd (populate_database sample_lib empty_db
      [PDict [(''id'', PInt 1), (''markets'', PList [PDict [(''id'', PInt 10)]])],
       PDict [(''id'', PInt 2),
              (''markets'', PList [PDict [(''id'', PInt 20), (''bestBid'', PNone)]])]])
   = empty_db
   \<and> fst (populate_database sample_lib empty_db
      [PDict [(''id'', PInt 1), (''slug'', PStr ''a'')],
       PDict [(''id'', PInt 2), (''slug'', PStr ''a'')]])
   = Inl IntegrityError
   \<and> snd (populate_database sample_lib empty_db
      [PDict [(''id'', PInt 1), (''slug'', PStr ''a'')],
       PDict [(''id'', PInt 2), (''slug'', PStr ''a'')]])
   = empty_db
   \<and> fst (populate_database typed_lib empty_db
      [PDict [(''id'', PInt 1),
              (''markets'', PList [PDict [(''id'', PInt 10), (''active'', PStr ''yes'')]])]])
   = Inl TypeError
   \<and> snd (populate_database typed_lib empty_db
      [PDict [(''id'', PInt 1),
              (''markets'', PList [PDict [(''id'', PInt 10), (''active'', PStr ''yes'')]])]])
   = empty_db"
proof -
  let ?xs = "[PDict [(''id'', PInt 1), (''markets'', PList [PDict [(''id'', PInt 10)]])],
       PDict [(''id'', PInt 2),
              (''markets'', PList [PDict [(''id'', PInt 20), (''bestBid'', PNone)]])]]"
  have f: "fst (populate_database sample_lib empty_db ?xs) = Inl TypeError"
    by code_simp
  then have h: "populate_database sample_lib empty_db ?xs
      = (Inl TypeError, snd (populate_database sample_lib empty_db ?xs))"
    by (simp add: prod_eq_iff)
  from populate_database_atomic [where L = sample_lib and store = empty_db and xs = ?xs
      and e = TypeError and store' = "snd (populate_database sample_lib empty_db ?xs)"] h
  have g: "snd (populate_database sample_lib empty_db ?xs) = empty_db" by blast
  let ?ys = "[PDict [(''id'', PInt 1), (''slug'', PStr ''a'')],
       PDict [(''id'', PInt 2), (''slug'', PStr ''a'')]]"
  have f2: "fst (populate_database sample_lib empty_db ?ys) = Inl IntegrityError"
    by code_simp
  then have h2: "populate_database sample_lib empty_db ?ys
      = (Inl IntegrityError, snd (populate_database sample_lib empty_db ?ys))"
    by (simp add: prod_eq_iff)
  from populate_database_atomic [where L = sample_lib and store = empty_db and xs = ?ys
      and e = IntegrityError and store' = "snd (populate_database sample_lib empty_db ?ys)"] h2
  have g2: "snd (populate_database sample_lib empty_db ?ys) = empty_db" by blast
  let ?zs = "[PDict [(''id'', PInt 1),
              (''markets'', PList [PDict [(''id'', PInt 10), (''active'', PStr ''yes'')]])]]"
  have f3: "fst (populate_database typed_lib empty_db ?zs) = Inl TypeError"
    by code_simp
  then have h3: "populate_database typed_lib empty_db ?zs
      = (Inl TypeError, snd (populate_database typed_lib empty_db ?zs))"
    by (simp add: prod_eq_iff)
  from populate_database_atomic [where L = typed_lib and store = empty_db and xs = ?zs
      and e = TypeError and store' = "snd (populate_database typed_lib empty_db ?zs)"] h3
  have g3: "snd (populate_database typed_lib empty_db ?zs) = empty_db" by blast
  from f g f2 g2 f3 g3 show ?thesis by (simp only: simp_thms)
qed

subsection \<open>Counts and rows\<close>

text \<open>
  Claim C4. When \<^verbatim>\<open>populate_database\<close> returns, the event counters add up to the
  number of raw events and the market counters to the number of their nested market
  records; the keys of the two tables are those they had and those of the batch. For a
  batch of one raw event with N nested markets: one event and N markets are counted, the
  row of the event is in the store, with or without markets, and so is a row for each of
  its markets.
\<close>

theorem populate_database_counts:
  "(populate_database L store xs = (Inr c, store') \<longrightarrow>
      events_added c + events_updated c = length xs
    \<and> markets_added c + markets_updated c = total_markets xs
    \<and> fst ` set (events_tbl store') = fst ` set (events_tbl store) \<union> record_id L ` set xs
    \<and> fst ` set (markets_tbl store')
        = fst ` set (markets_tbl store) \<union> (\<Union>x \<in> set xs. record_id L ` set (markets_of x)))
   \<and> (populate_database L store [x] = (Inr c1, store1) \<longrightarrow>
      events_added c1 + events_updated c1 = 1
    \<and> markets_added c1 + markets_updated c1 = length (markets_of x)
    \<and> record_id L x \<in> fst ` set (events_tbl store1)
    \<and> record_id L ` set (markets_of x) \<subseteq> fst ` set (markets_tbl store1))"
proof -
  have g: "populate_database L store ys = (Inr k, t) \<longrightarrow>
      events_added k + events_updated k = length ys
    \<and> markets_added k + markets_updated k = total_markets ys
    \<and> fst ` set (events_tbl t) = fst ` set (events_tbl store) \<union> record_id L ` set ys
    \<and> fst ` set (markets_tbl t)
        = fst ` set (markets_tbl store) \<union> (\<Union>x \<in> set ys. record_id L ` set (markets_of x))"
    for ys k t
  proof
    assume p: "populate_database L store ys = (Inr k, t)"
    then obtain s where s: "process_events L ys no_counts (Session store) = (Inr k, s)"
      and t: "t = pending s"
      by (auto simp add: populate_database_unfold split: prod.splits sum.splits)
    from process_events_Inr [OF s] t
    show "events_added k + events_updated k = length ys
    \<and> markets_added k + markets_updated k = total_markets ys
    \<and> fst ` set (events_tbl t) = fst ` set (events_tbl store) \<union> record_id L ` set ys
    \<and> fst ` set (markets_tbl t)
        = fst ` set (markets_tbl store) \<union> (\<Union>x \<in> set ys. record_id L ` set (markets_of x))"
      by (simp add: Session_def no_counts_def)
  qed
  from g [of xs c store'] g [of "[x]" c1 store1] show ?thesis
    by (auto simp add: total_markets_def)
qed

theorem populate_database_counts_witness:
  "fst (populate_database sample_lib empty_db [PDict [(''id'', PInt 1)]])
     = Inr \<lparr>events_added = 1, events_updated = 0, markets_added = 0, markets_updated = 0\<rparr>
   \<and> markets_of (PDict [(''id'', PInt 1)]) = []
   \<and> ''1'' \<in> fst ` set (events_tbl
        (snd (populate_database sample_lib empty_db [PDict [(''id'', PInt 1)]])))
   \<and> fst (populate_database sample_lib empty_db
        [PDict [(''id'', PInt 2),
                (''markets'', PList [PDict [(''id'', PInt 20)], PDict [(''id'', PInt 21)]])]])
     = Inr \<lparr>events_added = 1, events_updated = 0, markets_added = 2, markets_updated = 0\<rparr>
   \<and> total_markets
        [PDict [(''id'', PInt 2),
                (''markets'', PList [PDict [(''id'', PInt 20)], PDict [(''id'', PInt 21)]])]]
     = 2"
proof -
  let ?x = "PDict [(''id'', PInt 1)]"
  let ?c = "\<lparr>events_added = 1, events_updated = 0, markets_added = 0, markets_updated = 0\<rparr>"
  have f: "fst (populate_database sample_lib empty_db [?x]) = Inr ?c"
    by code_simp
  then have h: "populate_database sample_lib empty_db [?x]
      = (Inr ?c, snd (populate_database sample_lib empty_db [?x]))"
    by (simp add: prod_eq_iff)
  have i: "record_id sample_lib ?x = ''1''" by code_simp
  have m: "markets_of ?x = []" by code_simp
  from populate_database_counts [where L = sample_lib and store = empty_db and x = ?x
      and ?c1.0 = ?c and ?store1.0 = "snd (populate_database sample_lib empty_db [?x])"] h i
  have k: "''1'' \<in> fst ` set (events_tbl (snd (populate_database sample_lib empty_db [?x])))"
    by simp
  let ?y = "PDict [(''id'', PInt 2),
                (''markets'', PList [PDict [(''id'', PInt 20)], PDict [(''id'', PInt 21)]])]"
  let ?d = "\<lparr>events_added = 1, events_updated = 0, markets_added = 2, markets_updated = 0\<rparr>"
  have f2: "fst (populate_database sample_lib empty_db [?y]) = Inr ?d"
    by code_simp
  then have h2: "populate_database sample_lib empty_db [?y]
      = (Inr ?d, snd (populate_database sample_lib empty_db [?y]))"
    by (simp add: prod_eq_iff)
  from populate_database_counts [where L = sample_lib and store = empty_db and xs = "[?y]"
      and c = ?d and store' = "snd (populate_database sample_lib empty_db [?y])"] h2
  have t: "total_markets [?y] = 2" by simp
  from f m k f2 t show ?thesis by simp
qed

subsection \<open>An update replaces every mapped attribute\<close>

lemma setattrs_lookup:
  "\<not> private_key k \<Longrightarrow>
     setattrs r ob k = (case map_of (rev ob) k of None \<Rightarrow> r k | Some v \<Rightarrow> Some v)"
proof (induction ob arbitrary: r)
  case Nil
  show ?case by simp
next
  case (Cons kv kvs)
  show ?case
  proof (cases "map_of (rev kvs) k")
    case None
    with Cons show ?thesis
      by (cases kv) (auto simp add: map_add_def split: option.splits)
  next
    case (Some v)
    with Cons show ?thesis
      by (cases kv) (auto simp add: map_add_def split: option.splits)
  qed
qed

lemma create_market_event_id:
  assumes "create_market_from_api L x event_id = Inr ob"
  shows "row_of ob ''event_id'' = Some (PStr event_id)"
proof -
  have p: "\<not> private_key ''event_id''" by (simp add: private_key_def)
  have "map_of (rev ob) ''event_id'' = Some (PStr event_id)"
  proof (cases x)
    case (PDict d)
    with assms show ?thesis
      unfolding create_market_from_api_def
      apply (simp only: as_dict.simps)
      apply (drule bind_r_Inr, elim exE conjE)+
      apply (simp only: sum.inject)
      apply hypsubst
      apply (simp only: rev.simps append.simps lookup_simps)
      done
  qed (use assms in \<open>simp_all add: create_market_from_api_def bind_r_def\<close>)
  with p show ?thesis by (simp add: row_of_def setattrs_lookup)
qed

lemma map_add_on_dom:
  "(\<forall>k \<in> dom c. (r ++ c) k = c k) \<and> (\<forall>k. k \<notin> dom c \<longrightarrow> (r ++ c) k = r k)"
  by (auto simp add: map_add_def split: option.splits)

text \<open>
  Claim C9. When the lookup finds a row for the id of the incoming record and the record
  is processed without an exception, the candidate built by the mapping function carries
  exactly the columns of the table, and afterwards the stored row holds, in every one of
  these columns, the value of the candidate; a market row holds in \<^verbatim>\<open>event_id\<close> the id
  of the event being processed. The record is counted as updated, not as added.
\<close>

theorem update_replaces_every_attribute:
  "(process_event L x c s = (Inr c', s')
      \<and> map_of (events_tbl (pending s)) (record_id L x) = Some existing \<longrightarrow>
    (\<exists>ob r. create_event_from_api L x = Inr ob
       \<and> dom (row_of ob) = set event_columns
       \<and> map_of (events_tbl (pending s')) (record_id L x) = Some r
       \<and> (\<forall>k \<in> set event_columns. r k = row_of ob k)
       \<and> (\<forall>k. k \<notin> set event_columns \<longrightarrow> r k = existing k)
       \<and> events_updated c' = events_updated c + 1 \<and> events_added c' = events_added c))
   \<and> (process_market L event_id m c s = (Inr c', s')
      \<and> map_of (markets_tbl (pending s)) (record_id L m) = Some existing \<longrightarrow>
    (\<exists>ob r. create_market_from_api L m event_id = Inr ob
       \<and> dom (row_of ob) = set market_columns
       \<and> row_of ob ''event_id'' = Some (PStr event_id)
       \<and> map_of (markets_tbl (pending s')) (record_id L m) = Some r
       \<and> (\<forall>k \<in> set market_columns. r k = row_of ob k)
       \<and> (\<forall>k. k \<notin> set market_columns \<longrightarrow> r k = existing k)
       \<and> markets_updated c' = markets_updated c + 1 \<and> markets_added c' = markets_added c))"
proof (intro conjI impI)
  assume "process_event L x c s = (Inr c', s')
      \<and> map_of (events_tbl (pending s)) (record_id L x) = Some existing"
  then have p: "process_event L x c s = (Inr c', s')"
    and e: "map_of (events_tbl (pending s)) (record_id L x) = Some existing"
    by simp_all
  from process_event_Inr [OF p] e obtain ob where
    ob: "create_event_from_api L x = Inr ob" and
    q: "process_markets L (record_id L x) (markets_of x)
          (c\<lparr>events_updated := events_updated c + 1\<rparr>)
          (write_event (record_id L x) (existing ++ row_of ob) (s\<lparr>unflushed := None\<rparr>))
        = (Inr c', s')"
    by auto
  from process_markets_Inr [OF q]
  have t: "events_tbl (pending s')
             = events_tbl (pending (write_event (record_id L x) (existing ++ row_of ob)
                 (s\<lparr>unflushed := None\<rparr>)))"
    and n: "events_added c' = events_added c" "events_updated c' = events_updated c + 1"
    by simp_all
  have r: "map_of (events_tbl (pending s')) (record_id L x) = Some (existing ++ row_of ob)"
    by (simp add: t write_event_simps)
  from map_add_on_dom [of "row_of ob" existing] create_event_dom [OF ob]
  have "(\<forall>k \<in> set event_columns. (existing ++ row_of ob) k = row_of ob k)
     \<and> (\<forall>k. k \<notin> set event_columns \<longrightarrow> (existing ++ row_of ob) k = existing k)"
    by simp
  with ob r n create_event_dom [OF ob]
  show "\<exists>ob r. create_event_from_api L x = Inr ob
       \<and> dom (row_of ob) = set event_columns
       \<and> map_of (events_tbl (pending s')) (record_id L x) = Some r
       \<and> (\<forall>k \<in> set event_columns. r k = row_of ob k)
       \<and> (\<forall>k. k \<notin> set event_columns \<longrightarrow> r k = existing k)
       \<and> events_updated c' = events_updated c + 1 \<and> events_added c' = events_added c"
    by blast
next
  assume "process_market L event_id m c s = (Inr c', s')
      \<and> map_of (markets_tbl (pending s)) (record_id L m) = Some existing"
  then have p: "process_market L event_id m c s = (Inr c', s')"
    and e: "map_of (markets_tbl (pending s)) (record_id L m) = Some existing"
    by simp_all
  from process_market_Inr [OF p] e obtain ob where
    ob: "create_market_from_api L m event_id = Inr ob" and
    s': "s' = write_market (record_id L m) (existing ++ row_of ob) (s\<lparr>unflushed := None\<rparr>)" and
    c': "c' = c\<lparr>markets_updated := markets_updated c + 1\<rparr>"
    by auto
  have r: "map_of (markets_tbl (pending s')) (record_id L m) = Some (existing ++ row_of ob)"
    by (simp add: s' write_market_simps)
  from map_add_on_dom [of "row_of ob" existing] create_market_dom [OF ob]
  have "(\<forall>k \<in> set market_columns. (existing ++ row_of ob) k = row_of ob k)
     \<and> (\<forall>k. k \<notin> set market_columns \<longrightarrow> (existing ++ row_of ob) k = existing k)"
    by simp
  with ob r c' create_market_dom [OF ob] create_market_event_id [OF ob]
  show "\<exists>ob r. create_market_from_api L m event_id = Inr ob
       \<and> dom (row_of ob) = set market_columns
       \<and> row_of ob ''event_id'' = Some (PStr event_id)
       \<and> map_of (markets_tbl (pending s')) (record_id L m) = Some r
       \<and> (\<forall>k \<in> set market_columns. r k = row_of ob k)
       \<and> (\<forall>k. k \<notin> set market_columns \<longrightarrow> r k = existing k)
       \<and> markets_updated c' = markets_updated c + 1 \<and> markets_added c' = markets_added c"
    by simp
qed

theorem update_replaces_every_attribute_witness:
  "fst (process_event sample_lib (PDict [(''id'', PInt 1), (''title'', PStr ''new'')]) no_counts
         (Session \<lparr>events_tbl = [(''1'', [''id'' \<mapsto> PStr ''1'', ''title'' \<mapsto> PStr ''old'',
                                           ''legacy'' \<mapsto> PInt 5])],
                   markets_tbl = [(''10'', [''id'' \<mapsto> PStr ''10'',
                                            ''event_id'' \<mapsto> PStr ''9''])]\<rparr>))
     = Inr \<lparr>events_added = 0, events_updated = 1, markets_added = 0, markets_updated = 0\<rparr>
   \<and> map_option (\<lambda>r. (r ''title'', r ''legacy''))
        (map_of (events_tbl (pending (snd
          (process_event sample_lib (PDict [(''id'', PInt 1), (''title'', PStr ''new'')]) no_counts
            (Session \<lparr>events_tbl = [(''1'', [''id'' \<mapsto> PStr ''1'', ''title'' \<mapsto> PStr ''old'',
                                              ''legacy'' \<mapsto> PInt 5])],
                      markets_tbl = [(''10'', [''id'' \<mapsto> PStr ''10'',
                                               ''event_id'' \<mapsto> PStr ''9''])]\<rparr>))))) ''1'')
     = Some (Some (PStr ''new''), Some (PInt 5))
   \<and> fst (process_market sample_lib ''1'' (PDict [(''id'', PInt 10)]) no_counts
         (Session \<lparr>events_tbl = [(''1'', [''id'' \<mapsto> PStr ''1'', ''title'' \<mapsto> PStr ''old'',
                                           ''legacy'' \<mapsto> PInt 5])],
                   markets_tbl = [(''10'', [''id'' \<mapsto> PStr ''10'',
                                            ''event_id'' \<mapsto> PStr ''9''])]\<rparr>))
     = Inr \<lparr>events_added = 0, events_updated = 0, markets_added = 0, markets_updated = 1\<rparr>
   \<and> map_option (\<lambda>r. r ''event_id'')
        (map_of (markets_tbl (pending (snd
          (process_market sample_lib ''1'' (PDict [(''id'', PInt 10)]) no_counts
            (Session \<lparr>events_tbl = [(''1'', [''id'' \<mapsto> PStr ''1'', ''title'' \<mapsto> PStr ''old'',
                                              ''legacy'' \<mapsto> PInt 5])],
                      markets_tbl = [(''10'', [''id'' \<mapsto> PStr ''10'',
                                               ''event_id'' \<mapsto> PStr ''9''])]\<rparr>))))) ''10'')
     = Some (Some (PStr ''1''))"
proof -
  let ?re = "[''id'' \<mapsto> PStr ''1'', ''title'' \<mapsto> PStr ''old'', ''legacy'' \<mapsto> PInt 5]"
  let ?rm = "[''id'' \<mapsto> PStr ''10'', ''event_id'' \<mapsto> PStr ''9'']"
  let ?s = "Session \<lparr>events_tbl = [(''1'', ?re)], markets_tbl = [(''10'', ?rm)]\<rparr>"
  let ?x = "PDict [(''id'', PInt 1), (''title'', PStr ''new'')]"
  let ?m = "PDict [(''id'', PInt 10)]"
  let ?ce = "\<lparr>events_added = 0, events_updated = 1, markets_added = 0, markets_updated = 0\<rparr>"
  let ?cm = "\<lparr>events_added = 0, events_updated = 0, markets_added = 0, markets_updated = 1\<rparr>"
  have f1: "fst (process_event sample_lib ?x no_counts ?s) = Inr ?ce"
    by code_simp
  then have h1: "process_event sample_lib ?x no_counts ?s
      = (Inr ?ce, snd (process_event sample_lib ?x no_counts ?s))"
    by (simp add: prod_eq_iff)
  have i1: "record_id sample_lib ?x = ''1''" by code_simp
  have e1: "map_of (events_tbl (pending ?s)) (record_id sample_lib ?x) = Some ?re"
    by (simp add: i1 Session_def)
  from update_replaces_every_attribute [where L = sample_lib and x = ?x and c = no_counts
      and s = ?s and c' = ?ce and s' = "snd (process_event sample_lib ?x no_counts ?s)"
      and existing = ?re] h1 e1
  obtain ob r where ob: "create_event_from_api sample_lib ?x = Inr ob"
    and r: "map_of (events_tbl (pending (snd (process_event sample_lib ?x no_counts ?s))))
              (record_id sample_lib ?x) = Some r"
    and k: "\<forall>k \<in> set event_columns. r k = row_of ob k"
           "\<forall>k. k \<notin> set event_columns \<longrightarrow> r k = ?re k"
    by blast
  have t: "''title'' \<in> set event_columns" "''legacy'' \<notin> set event_columns"
    by code_simp+
  have "map_sum id (\<lambda>ob. row_of ob ''title'') (create_event_from_api sample_lib ?x)
          = Inr (Some (PStr ''new''))"
    by code_simp
  with ob have v: "row_of ob ''title'' = Some (PStr ''new'')" by simp
  from k t v have "r ''title'' = Some (PStr ''new'')" "r ''legacy'' = Some (PInt 5)"
    by simp_all
  with r i1 have g1: "map_option (\<lambda>r. (r ''title'', r ''legacy''))
        (map_of (events_tbl (pending (snd (process_event sample_lib ?x no_counts ?s)))) ''1'')
     = Some (Some (PStr ''new''), Some (PInt 5))"
    by simp
  have f2: "fst (process_market sample_lib ''1'' ?m no_counts ?s) = Inr ?cm"
    by code_simp
  then have h2: "process_market sample_lib ''1'' ?m no_counts ?s
      = (Inr ?cm, snd (process_market sample_lib ''1'' ?m no_counts ?s))"
    by (simp add: prod_eq_iff)
  have i2: "record_id sample_lib ?m = ''10''" by code_simp
  have e2: "map_of (markets_tbl (pending ?s)) (record_id sample_lib ?m) = Some ?rm"
    by (simp add: i2 Session_def)
  from update_replaces_every_attribute [where L = sample_lib and m = ?m and c = no_counts
      and event_id = "''1''"
      and s = ?s and c' = ?cm and s' = "snd (process_market sample_lib ''1'' ?m no_counts ?s)"
      and existing = ?rm] h2 e2
  obtain ob2 r2 where
    r2: "map_of (markets_tbl (pending (snd (process_market sample_lib ''1'' ?m no_counts ?s))))
              (record_id sample_lib ?m) = Some r2"
    and k2: "\<forall>k \<in> set market_columns. r2 k = row_of ob2 k"
    and v2: "row_of ob2 ''event_id'' = Some (PStr ''1'')"
    by blast
  have t2: "''event_id'' \<in> set market_columns" by code_simp
  from k2 t2 v2 have "r2 ''event_id'' = Some (PStr ''1'')" by simp
  with r2 i2 have g2: "map_option (\<lambda>r. r ''event_id'')
        (map_of (markets_tbl (pending (snd (process_market sample_lib ''1'' ?m no_counts ?s))))
           ''10'')
     = Some (Some (PStr ''1''))"
    by simp
  from f1 g1 f2 g2 show ?thesis by (simp only: simp_thms)
qed

subsection \<open>A second pass over the same batch\<close>

lemma update_present_keys:
  "k \<in> fst ` set al \<Longrightarrow> map fst (AList.update k v al) = map fst al"
proof (induction al)
  case Nil
  then show ?case by simp
next
  case (Cons p al)
  obtain a b where p: "p = (a, b)" by (cases p)
  show ?case
  proof (cases "k = a")
    case True
    then show ?thesis by (simp add: p)
  next
    case False
    with Cons.prems have "k \<in> fst ` set al" by (simp add: p)
    from Cons.IH [OF this] False show ?thesis by (simp add: p)
  qed
qed

lemma present_lookup: "k \<in> fst ` set al \<Longrightarrow> \<exists>r. map_of al k = Some r"
  by (cases "map_of al k") (simp_all add: map_of_eq_None_iff)

lemma keys_of_map_fst:
  "map fst t1 = map fst t2 \<Longrightarrow> fst ` set t1 = fst ` set t2"
proof -
  assume "map fst t1 = map fst t2"
  then have "set (map fst t1) = set (map fst t2)" by simp
  then show ?thesis by (simp only: set_map)
qed

lemma process_markets_present:
  assumes "process_markets L event_id ms c s = (Inr c', s')"
    and "record_id L ` set ms \<subseteq> fst ` set (markets_tbl (pending s))"
  shows "map fst (markets_tbl (pending s')) = map fst (markets_tbl (pending s))
       \<and> markets_added c' = markets_added c
       \<and> markets_updated c' = markets_updated c + length ms"
  using assms
proof (induction ms arbitrary: c s)
  case Nil
  then show ?case by simp
next
  case (Cons m ms)
  from Cons.prems(1) have
    "bind_s (process_market L event_id m c s) (process_markets L event_id ms) = (Inr c', s')"
    by simp
  from bind_s_Inr [OF this] obtain c1 s1 where
    1: "process_market L event_id m c s = (Inr c1, s1)" and
    2: "process_markets L event_id ms c1 s1 = (Inr c', s')"
    by blast
  from Cons.prems(2) have in_keys: "record_id L m \<in> fst ` set (markets_tbl (pending s))"
    by simp
  from present_lookup [OF in_keys] obtain r where
    r: "map_of (markets_tbl (pending s)) (record_id L m) = Some r"
    by blast
  from process_market_Inr [OF 1] obtain ob where
    s1: "s1 = write_market (record_id L m)
               ((case map_of (markets_tbl (pending s)) (record_id L m) of
                   None \<Rightarrow> Map.empty | Some r \<Rightarrow> r) ++ row_of ob)
               (s\<lparr>unflushed := None\<rparr>)" and
    c1: "c1 = (case map_of (markets_tbl (pending s)) (record_id L m) of
                None \<Rightarrow> c\<lparr>markets_added := markets_added c + 1\<rparr>
              | Some r \<Rightarrow> c\<lparr>markets_updated := markets_updated c + 1\<rparr>)"
    by blast
  have k1: "map fst (markets_tbl (pending s1)) = map fst (markets_tbl (pending s))"
    using in_keys by (simp add: s1 write_market_def update_present_keys)
  have n1: "markets_added c1 = markets_added c" "markets_updated c1 = markets_updated c + 1"
    by (simp_all add: c1 r)
  from keys_of_map_fst [OF k1] Cons.prems(2)
  have "record_id L ` set ms \<subseteq> fst ` set (markets_tbl (pending s1))"
    by simp
  from Cons.IH [OF 2 this] k1 n1 show ?case by simp
qed

lemma process_events_present:
  assumes "process_events L xs c s = (Inr c', s')"
    and "record_id L ` set xs \<subseteq> fst ` set (events_tbl (pending s))"
    and "(\<Union>x \<in> set xs. record_id L ` set (markets_of x)) \<subseteq> fst ` set (markets_tbl (pending s))"
  shows "map fst (events_tbl (pending s')) = map fst (events_tbl (pending s))
       \<and> map fst (markets_tbl (pending s')) = map fst (markets_tbl (pending s))
       \<and> events_added c' = events_added c
       \<and> events_updated c' = events_updated c + length xs
       \<and> markets_added c' = markets_added c
       \<and> markets_updated c' = markets_updated c + total_markets xs"
  using assms
proof (induction xs arbitrary: c s)
  case Nil
  then show ?case by (simp add: total_markets_def)
next
  case (Cons x xs)
  from Cons.prems(1) have
    "bind_s (process_event L x c s) (process_events L xs) = (Inr c', s')"
    by simp
  from bind_s_Inr [OF this] obtain c1 s1 where
    1: "process_event L x c s = (Inr c1, s1)" and
    2: "process_events L xs c1 s1 = (Inr c', s')"
    by blast
  from Cons.prems(2) have in_keys: "record_id L x \<in> fst ` set (events_tbl (pending s))"
    by simp
  from present_lookup [OF in_keys] obtain r where
    r: "map_of (events_tbl (pending s)) (record_id L x) = Some r"
    by blast
  from process_event_Inr [OF 1] obtain ob where
    q0: "process_markets L (record_id L x) (markets_of x)
           (case map_of (events_tbl (pending s)) (record_id L x) of
              None \<Rightarrow> c\<lparr>events_added := events_added c + 1\<rparr>
            | Some r \<Rightarrow> c\<lparr>events_updated := events_updated c + 1\<rparr>)
           (write_event (record_id L x)
              ((case map_of (events_tbl (pending s)) (record_id L x) of
                  None \<Rightarrow> Map.empty | Some r \<Rightarrow> r) ++ row_of ob)
              (s\<lparr>unflushed := None\<rparr>))
          = (Inr c1, s1)"
    by blast
  define s0 where "s0 = write_event (record_id L x) (r ++ row_of ob) (s\<lparr>unflushed := None\<rparr>)"
  define c0 where "c0 = c\<lparr>events_updated := events_updated c + 1\<rparr>"
  from q0 have q: "process_markets L (record_id L x) (markets_of x) c0 s0 = (Inr c1, s1)"
    by (simp add: r s0_def c0_def)
  have e0: "map fst (events_tbl (pending s0)) = map fst (events_tbl (pending s))"
    using in_keys by (simp add: s0_def write_event_def update_present_keys)
  have m0: "markets_tbl (pending s0) = markets_tbl (pending s)"
    by (simp add: s0_def write_event_def)
  from Cons.prems(3) have
    p0: "record_id L ` set (markets_of x) \<subseteq> fst ` set (markets_tbl (pending s0))"
    by (simp add: m0)
  from process_markets_present [OF q p0] have
    km: "map fst (markets_tbl (pending s1)) = map fst (markets_tbl (pending s))" and
    nm: "markets_added c1 = markets_added c"
        "markets_updated c1 = markets_updated c + length (markets_of x)"
    by (simp_all add: m0 c0_def)
  from process_markets_Inr [OF q] have
    ke: "map fst (events_tbl (pending s1)) = map fst (events_tbl (pending s))" and
    ne: "events_added c1 = events_added c" "events_updated c1 = events_updated c + 1"
    by (simp_all add: e0 c0_def)
  from keys_of_map_fst [OF ke] keys_of_map_fst [OF km] Cons.prems(2,3) have
    a: "record_id L ` set xs \<subseteq> fst ` set (events_tbl (pending s1))" and
    b: "(\<Union>x \<in> set xs. record_id L ` set (markets_of x)) \<subseteq> fst ` set (markets_tbl (pending s1))"
    by simp_all
  from Cons.IH [OF 2 a b] ke km ne nm show ?case by (simp add: total_markets_def)
qed

lemma second_pass:
  assumes 1: "process_events L xs no_counts (Session store) = (Inr c1, sa)"
    and 2: "process_events L xs no_counts (Session (pending sa)) = (Inr c2, sb)"
  shows "same_rows (events_tbl (pending sb)) (events_tbl (pending sa))
       \<and> same_rows (markets_tbl (pending sb)) (markets_tbl (pending sa))
       \<and> events_added c2 = 0 \<and> markets_added c2 = 0
       \<and> events_updated c2 = length xs \<and> markets_updated c2 = total_markets xs"
proof -
  from process_events_Inr [OF 1] have
    ea: "map_of (events_tbl (pending sa))
           = upsert (map_of (events_tbl store)) (event_writes L xs)" and
    ma: "map_of (markets_tbl (pending sa))
           = upsert (map_of (markets_tbl store)) (market_writes L xs)" and
    ka: "fst ` set (events_tbl (pending sa))
           = fst ` set (events_tbl store) \<union> record_id L ` set xs"
        "fst ` set (markets_tbl (pending sa))
           = fst ` set (markets_tbl store)
             \<union> (\<Union>x \<in> set xs. record_id L ` set (markets_of x))"
    by (simp_all add: Session_def)
  from process_events_Inr [OF 2] have
    eb: "map_of (events_tbl (pending sb))
           = upsert (map_of (events_tbl (pending sa))) (event_writes L xs)" and
    mb: "map_of (markets_tbl (pending sb))
           = upsert (map_of (markets_tbl (pending sa))) (market_writes L xs)"
    by (simp_all add: Session_def)
  from ea eb have e: "map_of (events_tbl (pending sb)) = map_of (events_tbl (pending sa))"
    by (simp only: upsert_idem)
  from ma mb have m: "map_of (markets_tbl (pending sb)) = map_of (markets_tbl (pending sa))"
    by (simp only: upsert_idem)
  from ka have
    pa: "record_id L ` set xs \<subseteq> fst ` set (events_tbl (pending (Session (pending sa))))" and
    pb: "(\<Union>x \<in> set xs. record_id L ` set (markets_of x))
           \<subseteq> fst ` set (markets_tbl (pending (Session (pending sa))))"
    by (simp_all add: Session_def)
  from process_events_present [OF 2 pa pb] have
    k: "map fst (events_tbl (pending sb)) = map fst (events_tbl (pending sa))"
       "map fst (markets_tbl (pending sb)) = map fst (markets_tbl (pending sa))" and
    n: "events_added c2 = 0" "markets_added c2 = 0"
       "events_updated c2 = length xs" "markets_updated c2 = total_markets xs"
    by (simp_all add: Session_def no_counts_def)
  from e m k n show ?thesis by (simp add: same_rows_def)
qed

lemma same_rows_refl: "same_rows t t"
  by (simp add: same_rows_def)

text \<open>
  Claim C2, at an input where it fails. The batch carries the event 1 twice, with the
  slugs s and t, and the event 2 with the slug s. The first pass returns: when the event
  2 is flushed, the event 1 holds t. On the second pass the event 1 is first given the
  slug s again, which the event 2 now holds: the unique index on the slug rejects the
  row at the next flush, and the pass raises instead of counting three updates.
\<close>

theorem second_pass_raises:
  "fst (populate_database sample_lib empty_db
      [PDict [(''id'', PInt 1), (''slug'', PStr ''s'')],
       PDict [(''id'', PInt 1), (''slug'', PStr ''t'')],
       PDict [(''id'', PInt 2), (''slug'', PStr ''s'')]])
   = Inr \<lparr>events_added = 2, events_updated = 1, markets_added = 0, markets_updated = 0\<rparr>
   \<and> fst (populate_database sample_lib
      (snd (populate_database sample_lib empty_db
        [PDict [(''id'', PInt 1), (''slug'', PStr ''s'')],
         PDict [(''id'', PInt 1), (''slug'', PStr ''t'')],
         PDict [(''id'', PInt 2), (''slug'', PStr ''s'')]]))
      [PDict [(''id'', PInt 1), (''slug'', PStr ''s'')],
       PDict [(''id'', PInt 1), (''slug'', PStr ''t'')],
       PDict [(''id'', PInt 2), (''slug'', PStr ''s'')]])
   = Inl IntegrityError"
  by code_simp

text \<open>
  Claim C2, amended. Whatever the first pass does, a second pass of
  \<^verbatim>\<open>populate_database\<close> over the same raw list leaves in both tables the rows of the
  first pass: the same keys in the same order, with the same attribute values, so that no
  row is added. Whenever the second pass returns after a first pass that returned, it
  counts every event and every market as updated and none as added. The second pass need
  not return: the database can reject a row of it.
\<close>

theorem populate_database_second_pass:
  "populate_database L store xs = (r1, store1) \<and> populate_database L store1 xs = (r2, store2)
   \<longrightarrow>
     same_rows (events_tbl store2) (events_tbl store1)
   \<and> same_rows (markets_tbl store2) (markets_tbl store1)
   \<and> (\<forall>c1 c2. r1 = Inr c1 \<and> r2 = Inr c2 \<longrightarrow>
         events_added c2 = 0 \<and> markets_added c2 = 0
       \<and> events_updated c2 = length xs \<and> markets_updated c2 = total_markets xs)
   \<and> (\<forall>e. r1 = Inl e \<longrightarrow> r2 = Inl e \<and> store1 = store)"
proof
  assume h: "populate_database L store xs = (r1, store1)
     \<and> populate_database L store1 xs = (r2, store2)"
  then have p1: "populate_database L store xs = (r1, store1)"
    and p2: "populate_database L store1 xs = (r2, store2)"
    by simp_all
  show "same_rows (events_tbl store2) (events_tbl store1)
   \<and> same_rows (markets_tbl store2) (markets_tbl store1)
   \<and> (\<forall>c1 c2. r1 = Inr c1 \<and> r2 = Inr c2 \<longrightarrow>
         events_added c2 = 0 \<and> markets_added c2 = 0
       \<and> events_updated c2 = length xs \<and> markets_updated c2 = total_markets xs)
   \<and> (\<forall>e. r1 = Inl e \<longrightarrow> r2 = Inl e \<and> store1 = store)"
  proof (cases r1)
    case (Inl e)
    with p1 have "store1 = store"
      by (auto simp add: populate_database_unfold split: prod.splits sum.splits)
    with p1 p2 Inl have "r2 = Inl e" "store2 = store1" by simp_all
    with Inl \<open>store1 = store\<close> show ?thesis by (simp add: same_rows_refl)
  next
    case (Inr c1)
    with p1 obtain sa where
      a: "process_events L xs no_counts (Session store) = (Inr c1, sa)" and
      s1: "store1 = pending sa"
      by (auto simp add: populate_database_unfold split: prod.splits sum.splits)
    show ?thesis
    proof (cases r2)
      case (Inl e)
      with p2 have "store2 = store1"
        by (auto simp add: populate_database_unfold split: prod.splits sum.splits)
      with Inl Inr show ?thesis by (simp add: same_rows_refl)
    next
      case (Inr c2)
      with p2 s1 obtain sb where
        b: "process_events L xs no_counts (Session (pending sa)) = (Inr c2, sb)" and
        s2: "store2 = pending sb"
        by (auto simp add: populate_database_unfold split: prod.splits sum.splits)
      from second_pass [OF a b] s1 s2 Inr \<open>r1 = Inr c1\<close> show ?thesis by simp
    qed
  qed
qed

theorem populate_database_second_pass_witness:
  "fst (populate_database sample_lib empty_db
      [PDict [(''id'', PStr ''1''), (''slug'', PStr ''will-x-happen''),
              (''markets'', PList [PDict [(''id'', PStr ''10''),
                                          (''question'', PStr ''Will X happen?'')]])]])
   = Inr \<lparr>events_added = 1, events_updated = 0, markets_added = 1, markets_updated = 0\<rparr>
   \<and> fst (populate_database sample_lib
       (snd (populate_database sample_lib empty_db
         [PDict [(''id'', PStr ''1''), (''slug'', PStr ''will-x-happen''),
                 (''markets'', PList [PDict [(''id'', PStr ''10''),
                                             (''question'', PStr ''Will X happen?'')]])]]))
       [PDict [(''id'', PStr ''1''), (''slug'', PStr ''will-x-happen''),
              (''markets'', PList [PDict [(''id'', PStr ''10''),
                                          (''question'', PStr ''Will X happen?'')]])]])
   = Inr \<lparr>events_added = 0, events_updated = 1, markets_added = 0, markets_updated = 1\<rparr>
   \<and> map fst (events_tbl (snd (populate_database sample_lib
       (snd (populate_database sample_lib empty_db
         [PDict [(''id'', PStr ''1''), (''slug'', PStr ''will-x-happen''),
                 (''markets'', PList [PDict [(''id'', PStr ''10''),
                                             (''question'', PStr ''Will X happen?'')]])]]))
       [PDict [(''id'', PStr ''1''), (''slug'', PStr ''will-x-happen''),
              (''markets'', PList [PDict [(''id'', PStr ''10''),
                                          (''question'', PStr ''Will X happen?'')]])]])))
     = [''1'']
   \<and> map fst (markets_tbl (snd (populate_database sample_lib
       (snd (populate_database sample_lib empty_db
         [PDict [(''id'', PStr ''1''), (''slug'', PStr ''will-x-happen''),
                 (''markets'', PList [PDict [(''id'', PStr ''10''),
                                             (''question'', PStr ''Will X happen?'')]])]]))
       [PDict [(''id'', PStr ''1''), (''slug'', PStr ''will-x-happen''),
              (''markets'', PList [PDict [(''id'', PStr ''10''),
                                          (''question'', PStr ''Will X happen?'')]])]])))
     = [''10'']"
proof -
  let ?xs = "[PDict [(''id'', PStr ''1''), (''slug'', PStr ''will-x-happen''),
              (''markets'', PList [PDict [(''id'', PStr ''10''),
                                          (''question'', PStr ''Will X happen?'')]])]]"
  let ?c1 = "\<lparr>events_added = 1, events_updated = 0, markets_added = 1, markets_updated = 0\<rparr>"
  let ?c2 = "\<lparr>events_added = 0, events_updated = 1, markets_added = 0, markets_updated = 1\<rparr>"
  let ?p1 = "populate_database sample_lib empty_db ?xs"
  let ?p2 = "populate_database sample_lib (snd ?p1) ?xs"
  have f1: "fst ?p1 = Inr ?c1" by code_simp
  have f2: "fst ?p2 = Inr ?c2" by code_simp
  have k1: "map fst (events_tbl (snd ?p1)) = [''1'']"
    "map fst (markets_tbl (snd ?p1)) = [''10'']"
    by code_simp+
  from f1 have h1: "?p1 = (Inr ?c1, snd ?p1)" by (simp add: prod_eq_iff)
  from f2 have h2: "?p2 = (Inr ?c2, snd ?p2)" by (simp add: prod_eq_iff)
  from populate_database_second_pass [where L = sample_lib and store = empty_db and xs = ?xs
      and ?r1.0 = "Inr ?c1" and ?store1.0 = "snd ?p1" and ?r2.0 = "Inr ?c2"
      and ?store2.0 = "snd ?p2"] h1 h2
  have "same_rows (events_tbl (snd ?p2)) (events_tbl (snd ?p1))"
    "same_rows (markets_tbl (snd ?p2)) (markets_tbl (snd ?p1))"
    by blast+
  with k1 have k2: "map fst (events_tbl (snd ?p2)) = [''1'']"
    "map fst (markets_tbl (snd ?p2)) = [''10'']"
    by (simp_all add: same_rows_def)
  from f1 f2 k2 show ?thesis by (simp only: simp_thms)
qed

end
